theory Spec2Isabelle
  imports Complex_Main "HOL-Library.Log_Nat"
begin

section \<open>Cloud FitTrack: the save callback and the dashboard aggregation\<close>

text \<open>
  A shallow embedding of \<^verbatim>\<open>fitness_app.py\<close>: the form callback
  \<^verbatim>\<open>save_workout_callback\<close> (lines 73-135) together with \<^verbatim>\<open>add_workout\<close>
  (lines 37-51), and the module-level code of the Dashboard page (lines 218-245).

  Modelling conventions.
  \<^item> Python \<^verbatim>\<open>int\<close> is \<^typ>\<open>int\<close>.
  \<^item> Python \<^verbatim>\<open>float\<close> is an IEEE 754 double. A finite double is the rational number it
    denotes; every operation computes the exact result and rounds it to the nearest
    double, ties to the even significand, with gradual underflow and overflow to
    infinity. The sign of a zero is not represented.
  \<^item> Python \<^verbatim>\<open>str\<close> is \<^typ>\<open>string\<close>; the two emoji of the messages are written as
    their UTF-8 bytes.
  \<^item> A calendar date is its proleptic Gregorian ordinal (\<^verbatim>\<open>date.toordinal()\<close>):
    day 1 is Monday 0001-01-01. A \<^verbatim>\<open>pd.Timestamp\<close> is a number of nanoseconds counted
    from midnight of day 0.
  \<^item> \<^verbatim>\<open>st.session_state\<close> is a record. The keys of widgets that are only rendered for
    some categories are optional; reading an absent key raises \<^verbatim>\<open>AttributeError\<close>.
  \<^item> The Firestore collection is the list of documents added so far.
\<close>

subsection \<open>Python number formatting\<close>

definition digit_char :: "nat \<Rightarrow> char" where
  "digit_char n = ''0123456789'' ! n"

text \<open>Decimal digits of a natural number, most significant first (\<^verbatim>\<open>str(n)\<close>).\<close>

fun dec_nat :: "nat \<Rightarrow> string" where
  "dec_nat n = (if n < 10 then [digit_char n] else dec_nat (n div 10) @ [digit_char (n mod 10)])"

declare dec_nat.simps [simp del]

text \<open>\<^verbatim>\<open>f"{i}"\<close> for an \<^verbatim>\<open>int\<close>.\<close>

definition str_int :: "int \<Rightarrow> string" where
  "str_int i = (if i < 0 then ''-'' @ dec_nat (nat (- i)) else dec_nat (nat i))"

text \<open>
  \<^verbatim>\<open>f"{i:02d}"\<close>: minimum width 2, padded with zeros between the sign and the digits;
  the sign counts towards the width.
\<close>

definition fmt_02d :: "int \<Rightarrow> string" where
  "fmt_02d i =
     (let sign = (if i < 0 then ''-'' else '''');
          body = dec_nat (nat \<bar>i\<bar>)
      in sign @ replicate (2 - length sign - length body) (CHR ''0'') @ body)"

text \<open>Rounding to the nearest integer, ties to the even one.\<close>

definition round_half_even :: "rat \<Rightarrow> int" where
  "round_half_even x =
     (let f = \<lfloor>x\<rfloor>; r = x - of_int f
      in if 2 * r < 1 then f else if 1 < 2 * r then f + 1 else if even f then f else f + 1)"

text \<open>
  \<^verbatim>\<open>f"{x:.kf}"\<close> for a finite \<open>x\<close> and \<open>k \<ge> 1\<close>: the sign, the integer part and \<open>k\<close>
  digits after the point, the exact value of the double rounded to the nearest, ties
  to even.
\<close>

definition fmt_f :: "nat \<Rightarrow> rat \<Rightarrow> string" where
  "fmt_f k x =
     (let n = nat (round_half_even (\<bar>x\<bar> * 10 ^ k));
          frac = dec_nat (n mod 10 ^ k)
      in (if x < 0 then ''-'' else '''') @ dec_nat (n div 10 ^ k) @ ''.'' @
         replicate (k - length frac) (CHR ''0'') @ frac)"

subsection \<open>Data\<close>

text \<open>The document that \<^verbatim>\<open>add_workout\<close> pushes; \<^verbatim>\<open>created_at\<close> and the id are the store's.\<close>

record workout =
  date :: int
  category :: string
  sub_type :: string
  duration_min :: int
  distance_km :: rat
  pace :: string
  "structure" :: string
  rpe :: int
  "notes" :: string

text \<open>
  \<^verbatim>\<open>st.session_state\<close>, one field per key the program uses. The distances are the finite
  doubles of the number inputs.
\<close>

record session_state =
  ss_confirm_save :: bool
  ss_date :: int
  ss_category :: string
  ss_duration :: int
  ss_notes :: string
  ss_rpe :: int
  ss_subtype_run :: "string option"
  ss_subtype_ride :: "string option"
  ss_structure_input :: "string option"
  ss_distance :: "rat option"
  ss_distance_cycle :: "rat option"
  ss_distance_swim :: "rat option"
  ss_manual_pace :: "bool option"
  ss_pace_input :: "string option"
  ss_success_msg :: "string option"
  ss_warning_msg :: "string option"

datatype py_error = AttributeError string | ZeroDivisionError | OverflowError | ValueError

text \<open>\<^verbatim>\<open>st.session_state.key\<close>: the value, or \<^verbatim>\<open>AttributeError\<close> when the key is absent.\<close>

definition get_attr :: "string \<Rightarrow> 'a option \<Rightarrow> py_error + 'a" where
  "get_attr key v = (case v of None \<Rightarrow> Inl (AttributeError key) | Some x \<Rightarrow> Inr x)"

text \<open>Sequencing of computations that may raise.\<close>

definition bind_err :: "py_error + 'a \<Rightarrow> ('a \<Rightarrow> py_error + 'b) \<Rightarrow> py_error + 'b" where
  "bind_err m f = (case m of Inl e \<Rightarrow> Inl e | Inr x \<Rightarrow> f x)"

subsection \<open>Python floats\<close>

text \<open>For \<open>a > 0\<close>, the integer \<open>l\<close> with \<open>2 powi l \<le> a\<close> and \<open>a < 2 powi (l + 1)\<close>.\<close>

definition log2_floor :: "rat \<Rightarrow> int" where
  "log2_floor a =
     (let (p, q) = quotient_of a; k = bitlen p - bitlen q
      in if a < 2 powi k then k - 1 else k)"

text \<open>
  Rounding to 53 significant bits, to the nearest and ties to even; below
  \<open>2 powi (- 1022)\<close> the spacing stays \<open>2 powi (- 1074)\<close> (subnormal numbers).
\<close>

definition round_nearest :: "rat \<Rightarrow> rat" where
  "round_nearest x =
     (if x = 0 then 0
      else
        let e = max (- 1074) (log2_floor \<bar>x\<bar> - 52);
            m = round_half_even (\<bar>x\<bar> / 2 powi e)
        in sgn x * of_int m * 2 powi e)"

datatype pyfloat = Fin rat | PInf | NInf | NaN

text \<open>The double nearest to a rational; a result of \<open>2 ^ 1024\<close> or more is an infinity.\<close>

definition round_double :: "rat \<Rightarrow> pyfloat" where
  "round_double x =
     (let r = round_nearest x
      in if 2 ^ 1024 \<le> \<bar>r\<bar> then (if 0 < x then PInf else NInf) else Fin r)"

fun is_neg :: "pyfloat \<Rightarrow> bool" where
  "is_neg (Fin a) = (a < 0)"
| "is_neg NInf = True"
| "is_neg PInf = False"
| "is_neg NaN = False"

definition signed_inf :: "bool \<Rightarrow> pyfloat" where
  "signed_inf neg = (if neg then NInf else PInf)"

text \<open>The arithmetic of doubles.\<close>

definition float_add :: "pyfloat \<Rightarrow> pyfloat \<Rightarrow> pyfloat" where
  "float_add x y =
     (case (x, y) of
        (Fin a, Fin b) \<Rightarrow> round_double (a + b)
      | (NaN, _) \<Rightarrow> NaN
      | (_, NaN) \<Rightarrow> NaN
      | (PInf, NInf) \<Rightarrow> NaN
      | (NInf, PInf) \<Rightarrow> NaN
      | (PInf, _) \<Rightarrow> PInf
      | (NInf, _) \<Rightarrow> NInf
      | (_, PInf) \<Rightarrow> PInf
      | (_, NInf) \<Rightarrow> NInf)"

definition float_sub :: "pyfloat \<Rightarrow> pyfloat \<Rightarrow> pyfloat" where
  "float_sub x y =
     (case (x, y) of
        (Fin a, Fin b) \<Rightarrow> round_double (a - b)
      | (NaN, _) \<Rightarrow> NaN
      | (_, NaN) \<Rightarrow> NaN
      | (PInf, PInf) \<Rightarrow> NaN
      | (NInf, NInf) \<Rightarrow> NaN
      | (PInf, _) \<Rightarrow> PInf
      | (NInf, _) \<Rightarrow> NInf
      | (_, PInf) \<Rightarrow> NInf
      | (_, NInf) \<Rightarrow> PInf)"

definition float_mul :: "pyfloat \<Rightarrow> pyfloat \<Rightarrow> pyfloat" where
  "float_mul x y =
     (case (x, y) of
        (Fin a, Fin b) \<Rightarrow> round_double (a * b)
      | (NaN, _) \<Rightarrow> NaN
      | (_, NaN) \<Rightarrow> NaN
      | _ \<Rightarrow> if x = Fin 0 \<or> y = Fin 0 then NaN else signed_inf (is_neg x \<noteq> is_neg y))"

definition float_div :: "pyfloat \<Rightarrow> pyfloat \<Rightarrow> pyfloat" where
  "float_div x y =
     (case (x, y) of
        (Fin a, Fin b) \<Rightarrow> round_double (a / b)
      | (NaN, _) \<Rightarrow> NaN
      | (_, NaN) \<Rightarrow> NaN
      | (Fin a, _) \<Rightarrow> Fin 0
      | (_, Fin b) \<Rightarrow> signed_inf (is_neg x \<noteq> (b < 0))
      | _ \<Rightarrow> NaN)"

text \<open>\<^verbatim>\<open>float(i)\<close>, also where Python converts an \<^verbatim>\<open>int\<close> operand of a float operation.\<close>

definition float_of_int :: "int \<Rightarrow> py_error + pyfloat" where
  "float_of_int i =
     (case round_double (of_int i) of Fin x \<Rightarrow> Inr (Fin x) | _ \<Rightarrow> Inl OverflowError)"

text \<open>\<^verbatim>\<open>x / y\<close> on floats: \<^verbatim>\<open>ZeroDivisionError\<close> when \<open>y\<close> is zero.\<close>

definition py_truediv :: "pyfloat \<Rightarrow> pyfloat \<Rightarrow> py_error + pyfloat" where
  "py_truediv x y = (if y = Fin 0 then Inl ZeroDivisionError else Inr (float_div x y))"

text \<open>\<^verbatim>\<open>i / y\<close>, \<^verbatim>\<open>x - i\<close> and \<^verbatim>\<open>x * i\<close> for an \<^verbatim>\<open>int\<close> \<open>i\<close> and floats \<open>x\<close>, \<open>y\<close>.\<close>

definition py_truediv_int_float :: "int \<Rightarrow> pyfloat \<Rightarrow> py_error + pyfloat" where
  "py_truediv_int_float i y = bind_err (float_of_int i) (\<lambda>x. py_truediv x y)"

definition py_sub_float_int :: "pyfloat \<Rightarrow> int \<Rightarrow> py_error + pyfloat" where
  "py_sub_float_int x i = bind_err (float_of_int i) (\<lambda>y. Inr (float_sub x y))"

definition py_mul_float_int :: "pyfloat \<Rightarrow> int \<Rightarrow> py_error + pyfloat" where
  "py_mul_float_int x i = bind_err (float_of_int i) (\<lambda>y. Inr (float_mul x y))"

text \<open>\<^verbatim>\<open>a / b\<close> on two \<^verbatim>\<open>int\<close>s: the quotient, rounded once.\<close>

definition py_truediv_int_int :: "int \<Rightarrow> int \<Rightarrow> py_error + pyfloat" where
  "py_truediv_int_int a b =
     (if b = 0 then Inl ZeroDivisionError
      else case round_double (of_int a / of_int b) of
             Fin x \<Rightarrow> Inr (Fin x)
           | _ \<Rightarrow> Inl OverflowError)"

text \<open>\<^verbatim>\<open>int(x)\<close> for a float: truncation towards zero; an infinity or a NaN raises.\<close>

definition trunc_rat :: "rat \<Rightarrow> int" where
  "trunc_rat x = (if 0 \<le> x then \<lfloor>x\<rfloor> else \<lceil>x\<rceil>)"

fun py_int :: "pyfloat \<Rightarrow> py_error + int" where
  "py_int (Fin x) = Inr (trunc_rat x)"
| "py_int NaN = Inl ValueError"
| "py_int PInf = Inl OverflowError"
| "py_int NInf = Inl OverflowError"

text \<open>\<^verbatim>\<open>f"{x:.kf}"\<close> for a float.\<close>

fun fmt_float :: "nat \<Rightarrow> pyfloat \<Rightarrow> string" where
  "fmt_float k (Fin x) = fmt_f k x"
| "fmt_float k PInf = ''inf''"
| "fmt_float k NInf = ''-inf''"
| "fmt_float k NaN = ''nan''"

subsection \<open>The save callback\<close>

text \<open>
  Lines 37-51: the document is appended to the collection. The program stores the date
  as text (\<^verbatim>\<open>%Y-%m-%d\<close>) and the Dashboard parses it back; the model keeps the day.
\<close>

definition add_workout ::
  "int \<Rightarrow> string \<Rightarrow> string \<Rightarrow> int \<Rightarrow> rat \<Rightarrow> string \<Rightarrow> string \<Rightarrow> int \<Rightarrow> string \<Rightarrow>
   workout list \<Rightarrow> workout list" where
  "add_workout d c st dur km p stru r n db =
     db @ [\<lparr>date = d, category = c, sub_type = st, duration_min = dur, distance_km = km,
            pace = p, structure = stru, rpe = r, notes = n\<rparr>]"

text \<open>Lines 85-95: the sub-type and the structure text.\<close>

definition sub_type_structure :: "session_state \<Rightarrow> py_error + (string \<times> string)" where
  "sub_type_structure s =
     (if ss_category s = ''Running'' then
        bind_err (get_attr ''subtype_run'' (ss_subtype_run s)) (\<lambda>sub_type.
          if sub_type = ''Workout''
          then bind_err (get_attr ''structure_input'' (ss_structure_input s)) (\<lambda>structure.
                 Inr (sub_type, structure))
          else Inr (sub_type, ''''))
      else if ss_category s = ''Cycling'' then
        bind_err (get_attr ''subtype_ride'' (ss_subtype_ride s)) (\<lambda>sub_type.
          if sub_type = ''Workout''
          then bind_err (get_attr ''structure_input'' (ss_structure_input s)) (\<lambda>structure.
                 Inr (sub_type, structure))
          else Inr (sub_type, ''''))
      else Inr (''Normal'', ''''))"

text \<open>Lines 108-110: the minutes, the seconds and the pace string of a pace.\<close>

definition minutes_seconds :: "pyfloat \<Rightarrow> py_error + string" where
  "minutes_seconds pace_decimal =
     bind_err (py_int pace_decimal) (\<lambda>minutes.
     bind_err (py_sub_float_int pace_decimal minutes) (\<lambda>fraction.
     bind_err (py_mul_float_int fraction 60) (\<lambda>product.
     bind_err (py_int product) (\<lambda>seconds.
       Inr (str_int minutes @ '':'' @ fmt_02d seconds @ '' /km'')))))"

text \<open>Lines 107-110: the computed running pace.\<close>

definition running_pace :: "int \<Rightarrow> rat \<Rightarrow> py_error + string" where
  "running_pace duration distance =
     bind_err (py_truediv_int_float duration (Fin distance)) minutes_seconds"

text \<open>Lines 114-115: the cycling speed.\<close>

definition cycling_speed :: "int \<Rightarrow> rat \<Rightarrow> py_error + string" where
  "cycling_speed duration distance =
     bind_err (py_truediv_int_int duration 60) (\<lambda>hours.
     bind_err (py_truediv (Fin distance) hours) (\<lambda>speed.
       Inr (fmt_float 1 speed @ '' km/h'')))"

text \<open>Lines 97-117: the distance and the pace string.\<close>

definition distance_pace :: "session_state \<Rightarrow> py_error + (rat \<times> string)" where
  "distance_pace s =
     (if ss_category s = ''Running'' then
        bind_err (get_attr ''distance'' (ss_distance s)) (\<lambda>distance.
        bind_err (get_attr ''manual_pace'' (ss_manual_pace s)) (\<lambda>manual_pace.
          if manual_pace
          then bind_err (get_attr ''pace_input'' (ss_pace_input s)) (\<lambda>pace_str.
                 Inr (distance, pace_str))
          else if 0 < distance
          then bind_err (running_pace (ss_duration s) distance) (\<lambda>pace_str.
                 Inr (distance, pace_str))
          else Inr (distance, ''N/A'')))
      else if ss_category s = ''Cycling'' then
        bind_err (get_attr ''distance_cycle'' (ss_distance_cycle s)) (\<lambda>distance.
          if 0 < distance \<and> 0 < ss_duration s
          then bind_err (cycling_speed (ss_duration s) distance) (\<lambda>pace_str.
                 Inr (distance, pace_str))
          else Inr (distance, ''N/A''))
      else if ss_category s = ''Swimming'' then
        bind_err (get_attr ''distance_swim'' (ss_distance_swim s)) (\<lambda>distance.
          Inr (distance, ''N/A''))
      else Inr (0, ''N/A''))"

definition warning_text :: string where
  "warning_text =
     [CHR 0xE2, CHR 0x9A, CHR 0xA0, CHR 0xEF, CHR 0xB8, CHR 0x8F] @
     '' Please check '' @ [CHR 0x27] @ ''Ready to Save'' @ [CHR 0x27] @ '' to confirm.''"

definition success_text :: "string \<Rightarrow> string \<Rightarrow> string" where
  "success_text st c =
     [CHR 0xE2, CHR 0x9C, CHR 0x85] @ '' Saved '' @ st @ '' ('' @ c @ '') to Cloud!''"

text \<open>Lines 122-135: the messages and the reset of the inputs.\<close>

definition reset_inputs :: "string \<Rightarrow> session_state \<Rightarrow> session_state" where
  "reset_inputs st s =
     s\<lparr>ss_success_msg := Some (success_text st (ss_category s)),
       ss_warning_msg := None,
       ss_duration := 30,
       ss_notes := '''',
       ss_confirm_save := False,
       ss_manual_pace := Some False,
       ss_pace_input := Some '''',
       ss_rpe := 5,
       ss_structure_input := map_option (\<lambda>_. '''') (ss_structure_input s),
       ss_distance := map_option (\<lambda>_. 0) (ss_distance s),
       ss_distance_cycle := map_option (\<lambda>_. 0) (ss_distance_cycle s),
       ss_distance_swim := map_option (\<lambda>_. 0) (ss_distance_swim s)\<rparr>"

text \<open>
  Lines 73-135. The result is the exception raised, or the session state and the
  collection after the call.
\<close>

definition save_workout_callback ::
  "session_state \<Rightarrow> workout list \<Rightarrow> py_error + (session_state \<times> workout list)" where
  "save_workout_callback s db =
     (if \<not> ss_confirm_save s then Inr (s\<lparr>ss_warning_msg := Some warning_text\<rparr>, db)
      else
        bind_err (sub_type_structure s) (\<lambda>(sub_type, structure).
        bind_err (distance_pace s) (\<lambda>(distance, pace_str).
          Inr (reset_inputs sub_type s,
               add_workout (ss_date s) (ss_category s) sub_type (ss_duration s) distance
                 pace_str structure (ss_rpe s) (ss_notes s) db))))"

subsection \<open>Dates and timestamps\<close>

text \<open>
  The calendar of Python's \<^verbatim>\<open>datetime\<close>: the ordinal of a year, month and day
  (\<^verbatim>\<open>date(y, m, d).toordinal()\<close>), for months 1 to 12.
\<close>

definition is_leap :: "int \<Rightarrow> bool" where
  "is_leap y = (if y mod 100 = 0 then y mod 400 = 0 else y mod 4 = 0)"

definition days_before_year :: "int \<Rightarrow> int" where
  "days_before_year y = (y - 1) * 365 + (y - 1) div 4 - (y - 1) div 100 + (y - 1) div 400"

definition days_before_month :: "int \<Rightarrow> nat \<Rightarrow> int" where
  "days_before_month y m =
     [0, 31, 59, 90, 120, 151, 181, 212, 243, 273, 304, 334] ! (m - 1) +
     (if 2 < m \<and> is_leap y then 1 else 0)"

definition ymd :: "int \<Rightarrow> nat \<Rightarrow> int \<Rightarrow> int" where
  "ymd y m d = days_before_year y + days_before_month y m + d"

text \<open>\<^verbatim>\<open>date.weekday()\<close> and \<^verbatim>\<open>Timestamp.dayofweek\<close>: Monday is 0, Sunday is 6.\<close>

definition weekday :: "int \<Rightarrow> int" where
  "weekday d = (d + 6) mod 7"

type_synonym timestamp = int

definition ns_per_day :: int where
  "ns_per_day = 86400 * 1000000000"

text \<open>\<^verbatim>\<open>pd.to_datetime\<close> of a stored date: midnight of that day.\<close>

definition to_datetime :: "int \<Rightarrow> timestamp" where
  "to_datetime d = d * ns_per_day"

definition day_of :: "timestamp \<Rightarrow> int" where
  "day_of t = t div ns_per_day"

definition dayofweek :: "timestamp \<Rightarrow> int" where
  "dayofweek t = weekday (day_of t)"

text \<open>\<^verbatim>\<open>Timestamp.normalize()\<close>: midnight of the same day.\<close>

definition normalize :: "timestamp \<Rightarrow> timestamp" where
  "normalize t = day_of t * ns_per_day"

text \<open>\<^verbatim>\<open>pd.to_timedelta(k, unit='D')\<close> and \<^verbatim>\<open>pd.Timedelta(weeks=k)\<close>, in nanoseconds.\<close>

definition timedelta_days :: "int \<Rightarrow> int" where
  "timedelta_days k = k * ns_per_day"

definition timedelta_weeks :: "int \<Rightarrow> int" where
  "timedelta_weeks k = k * 7 * ns_per_day"

subsection \<open>The weekly resampling\<close>

text \<open>
  \<^verbatim>\<open>df.set_index('date').resample('W-MON')[['duration_min']].sum().reset_index()\<close>.
  The frequency \<^verbatim>\<open>W-MON\<close> is weekly, anchored on Mondays; for weekly frequencies pandas
  closes and labels each bin on the right. A bin is the seven days that end on a Monday,
  it is labelled with that Monday, and it holds the rows dated after the previous Monday
  and up to the label. The result has one row for every bin from the one holding the
  earliest date to the one holding the latest date, in ascending order; \<^verbatim>\<open>sum\<close> of a bin
  without rows is 0. An empty frame gives an empty result.
\<close>

definition week_label :: "int \<Rightarrow> int" where
  "week_label d = d + (- weekday d) mod 7"

definition in_bin :: "int \<Rightarrow> workout \<Rightarrow> bool" where
  "in_bin b r = (b - 7 < date r \<and> date r \<le> b)"

definition resample_W_MON_sum :: "workout list \<Rightarrow> (int \<times> int) list" where
  "resample_W_MON_sum df =
     (if df = [] then []
      else
        let first = week_label (Min (set (map date df)));
            last = week_label (Max (set (map date df)));
            labels = map (\<lambda>k. first + 7 * int k) [0 ..< nat ((last - first) div 7) + 1]
        in map (\<lambda>b. (b, sum_list (map duration_min (filter (in_bin b) df)))) labels)"

subsection \<open>The Dashboard page\<close>

text \<open>
  Lines 218-245. The page calls \<^verbatim>\<open>pd.Timestamp.now()\<close> three times: twice on line 220
  (\<open>now1\<close> is the minuend, \<open>now2\<close> gives the day of the week) and once on line 244
  (\<open>now3\<close>). The readings are inputs of the model, in the order they are taken.
\<close>

text \<open>Lines 220-223: the rows of the current week.\<close>

definition current_week_start :: "timestamp \<Rightarrow> timestamp \<Rightarrow> timestamp" where
  "current_week_start now1 now2 = now1 - timedelta_days (dayofweek now2)"

definition this_week_df :: "timestamp \<Rightarrow> timestamp \<Rightarrow> workout list \<Rightarrow> workout list" where
  "this_week_df now1 now2 df =
     filter (\<lambda>r. normalize (current_week_start now1 now2) \<le> to_datetime (date r)) df"

text \<open>Lines 235-241: the rows of the selected activity.\<close>

definition df_filtered :: "string \<Rightarrow> workout list \<Rightarrow> workout list" where
  "df_filtered activity_filter df =
     (if activity_filter = ''All Activities'' then df
      else filter (\<lambda>r. category r = activity_filter) df)"

text \<open>Lines 243-245: the weekly sums and the rows of the last twelve weeks.\<close>

definition df_weekly :: "string \<Rightarrow> workout list \<Rightarrow> (int \<times> int) list" where
  "df_weekly activity_filter df = resample_W_MON_sum (df_filtered activity_filter df)"

definition df_viz :: "timestamp \<Rightarrow> string \<Rightarrow> workout list \<Rightarrow> (int \<times> int) list" where
  "df_viz now3 activity_filter df =
     (let last_12 = now3 - timedelta_weeks 12
      in filter (\<lambda>(b, v). last_12 \<le> to_datetime b) (df_weekly activity_filter df))"

text \<open>What the page shows: the three metrics and the rows of the bar chart.\<close>

record dashboard =
  total_workouts :: nat
  this_week_duration :: string
  this_week_distance :: string
  weekly_volume :: "(int \<times> int) list"

text \<open>
  Lines 214-253. With no data the page only shows a warning (\<open>None\<close>). The distances
  are added in float arithmetic by \<^verbatim>\<open>Series.sum\<close>, in an order that the program does not
  fix: the summation \<open>float_sum\<close> is a parameter.
\<close>

definition dashboard_page ::
  "(rat list \<Rightarrow> pyfloat) \<Rightarrow> timestamp \<Rightarrow> timestamp \<Rightarrow> timestamp \<Rightarrow> string \<Rightarrow>
   workout list \<Rightarrow> dashboard option" where
  "dashboard_page float_sum now1 now2 now3 activity_filter df =
     (if df = [] then None
      else Some
        \<lparr>total_workouts = length df,
         this_week_duration =
           str_int (sum_list (map duration_min (this_week_df now1 now2 df))) @ '' min'',
         this_week_distance =
           fmt_float 2 (float_sum (map distance_km (this_week_df now1 now2 df))) @ '' km'',
         weekly_volume = df_viz now3 activity_filter df\<rparr>)"

subsection \<open>Notions of the specification\<close>

text \<open>Line 156: the categories the form offers.\<close>

definition categories :: "string list" where
  "categories = [''Running'', ''Cycling'', ''Swimming'', ''Gym'', ''Stretching'']"

text \<open>
  Lines 163-169: the form shows the structure field when the sub-type of a run or of a
  ride is \<^verbatim>\<open>Workout\<close>.
\<close>

definition is_interval :: "string \<Rightarrow> string \<Rightarrow> bool" where
  "is_interval cat st =
     (if cat = ''Running'' then st = ''Workout''
      else if cat = ''Cycling'' then st = ''Workout''
      else False)"


text \<open>
  The running pace in the words of the specification (section 4.1), in exact
  arithmetic: the pace is the quotient, the minutes and the seconds are floors, and
  the seconds are printed as two decimal digits.
\<close>

definition spec_two_digits :: "int \<Rightarrow> string" where
  "spec_two_digits n = [digit_char (nat n div 10), digit_char (nat n mod 10)]"

definition spec_derive_pace_exact :: "int \<Rightarrow> rat \<Rightarrow> string" where
  "spec_derive_pace_exact duration distance =
     (let pace_decimal = of_int duration / distance;
          minutes = \<lfloor>pace_decimal\<rfloor>;
          seconds = \<lfloor>(pace_decimal - of_int minutes) * 60\<rfloor>
      in str_int minutes @ '':'' @ spec_two_digits seconds @ '' /km'')"

text \<open>
  The same words in the arithmetic of doubles: the duration is converted to a double,
  and the quotient, the difference and the product are each rounded to the nearest
  double.
\<close>

definition spec_derive_pace_double :: "int \<Rightarrow> rat \<Rightarrow> string" where
  "spec_derive_pace_double duration distance =
     (let pace_decimal = round_nearest (round_nearest (of_int duration) / distance);
          minutes = \<lfloor>pace_decimal\<rfloor>;
          seconds = \<lfloor>round_nearest (round_nearest (pace_decimal - of_int minutes) * 60)\<rfloor>
      in str_int minutes @ '':'' @ spec_two_digits seconds @ '' /km'')"

text \<open>
  A number whose nearest double is finite, and the inputs for which the duration and
  the pace are finite doubles.
\<close>

definition finite_double :: "rat \<Rightarrow> bool" where
  "finite_double x = (\<bar>round_nearest x\<bar> < 2 ^ 1024)"

definition pace_is_finite :: "int \<Rightarrow> rat \<Rightarrow> bool" where
  "pace_is_finite duration distance =
     (finite_double (of_int duration) \<and>
      finite_double (round_nearest (of_int duration) / distance))"

text \<open>
  A well-formed running pace: one or more digits, a colon, exactly two digits and the
  unit.
\<close>

definition is_digit :: "char \<Rightarrow> bool" where
  "is_digit c = (c \<in> set ''0123456789'')"

definition well_formed_pace :: "string \<Rightarrow> bool" where
  "well_formed_pace p =
     (let ms = takeWhile is_digit p; rest = dropWhile is_digit p
      in ms \<noteq> [] \<and> length rest = 7 \<and> hd rest = CHR '':'' \<and>
         is_digit (rest ! 1) \<and> is_digit (rest ! 2) \<and> drop 3 rest = '' /km'')"

text \<open>The doubles: 53 significant bits, no exponent below \<open>- 1074\<close>.\<close>

definition on_grid :: "rat \<Rightarrow> bool" where
  "on_grid y = (\<exists>M e. \<bar>M\<bar> < 2 ^ 53 \<and> - 1074 \<le> e \<and> y = of_int M * 2 powi e)"

subsection \<open>Sample inputs\<close>

text \<open>A filled-in running form, confirmed, with text left over in the structure field.\<close>

definition form_run :: session_state where
  "form_run =
     \<lparr>ss_confirm_save = True, ss_date = ymd 2024 1 8, ss_category = ''Running'',
      ss_duration = 30, ss_notes = ''river loop'', ss_rpe = 6,
      ss_subtype_run = Some ''Easy Run'', ss_subtype_ride = None,
      ss_structure_input = Some ''4 x 1km'', ss_distance = Some 5,
      ss_distance_cycle = None, ss_distance_swim = None, ss_manual_pace = Some False,
      ss_pace_input = Some '''', ss_success_msg = None, ss_warning_msg = None\<rparr>"

definition form_unconfirmed :: session_state where
  "form_unconfirmed = form_run\<lparr>ss_confirm_save := False\<rparr>"

definition form_yoga :: session_state where
  "form_yoga = form_run\<lparr>ss_category := ''Yoga''\<rparr>"

definition form_rowing :: session_state where
  "form_rowing = form_run\<lparr>ss_category := ''Rowing'', ss_duration := 45\<rparr>"



definition form_manual :: session_state where
  "form_manual =
     form_run\<lparr>ss_distance := Some 0, ss_manual_pace := Some True, ss_pace_input := Some ''''\<rparr>"

text \<open>28 minutes over 5 km, and 4 minutes over 3 km.\<close>

definition form_28 :: session_state where
  "form_28 = form_run\<lparr>ss_duration := 28\<rparr>"

definition form_thirds :: session_state where
  "form_thirds = form_run\<lparr>ss_duration := 4, ss_distance := Some 3\<rparr>"

text \<open>
  Distances so small that the quotient exceeds every finite double: \<open>2 powi (- 1030)\<close>
  (about \<open>8.7e-311\<close>) and the smallest positive double \<open>2 powi (- 1074)\<close>.
\<close>

definition form_tiny_distance :: session_state where
  "form_tiny_distance = form_run\<lparr>ss_distance := Some (2 powi (- 1030))\<rparr>"

definition form_smallest_distance :: session_state where
  "form_smallest_distance = form_run\<lparr>ss_duration := 1, ss_distance := Some (2 powi (- 1074))\<rparr>"

text \<open>A stored easy run of the given day and duration.\<close>

definition easy_run :: "int \<Rightarrow> int \<Rightarrow> workout" where
  "easy_run d dur =
     \<lparr>date = d, category = ''Running'', sub_type = ''Easy Run'', duration_min = dur,
      distance_km = 5, pace = ''N/A'', structure = '''', rpe = 5, notes = ''''\<rparr>"

text \<open>Two Mondays with an empty week between them; a Tuesday; a Tuesday and a Thursday.\<close>

definition two_mondays :: "workout list" where
  "two_mondays = [easy_run (ymd 2024 1 8) 30, easy_run (ymd 2024 1 22) 40]"

definition one_tuesday :: "workout list" where
  "one_tuesday = [easy_run (ymd 2024 1 9) 30]"

definition sparse_march :: "workout list" where
  "sparse_march = [easy_run (ymd 2024 3 5) 20, easy_run (ymd 2024 3 21) 50]"

text \<open>Clock readings: a full hour of a day, and a number of nanoseconds after midnight.\<close>

definition at_hour :: "int \<Rightarrow> int \<Rightarrow> timestamp" where
  "at_hour d h = to_datetime d + h * 3600 * 1000000000"

definition at_ns :: "int \<Rightarrow> int \<Rightarrow> timestamp" where
  "at_ns d n = to_datetime d + n"

text \<open>
  Sunday 14 January 2024, two microseconds and one microsecond before midnight; then
  Monday 15 January, one and two microseconds after midnight.
\<close>

definition sunday_late :: timestamp where
  "sunday_late = at_ns (ymd 2024 1 14) 86399999998000"

definition sunday_later :: timestamp where
  "sunday_later = at_ns (ymd 2024 1 14) 86399999999000"

definition monday_early :: timestamp where
  "monday_early = at_ns (ymd 2024 1 15) 1000"

definition monday_after :: timestamp where
  "monday_after = at_ns (ymd 2024 1 15) 2000"

text \<open>A summation that adds the doubles from left to right.\<close>

definition seq_sum :: "rat list \<Rightarrow> pyfloat" where
  "seq_sum xs = foldl float_add (Fin 0) (map Fin xs)"

section \<open>Auxiliary facts\<close>

lemma bind_err_simps [simp]:
  "bind_err (Inl e) f = Inl e"
  "bind_err (Inr x) f = f x"
  by (simp_all add: bind_err_def)

lemma get_attr_simps [simp]:
  "get_attr k None = Inl (AttributeError k)"
  "get_attr k (Some x) = Inr x"
  by (simp_all add: get_attr_def)

section \<open>Properties of the float arithmetic\<close>

subsection \<open>Rounding to an integer\<close>

lemma rhe_cases: "round_half_even x = \<lfloor>x\<rfloor> \<or> round_half_even x = \<lfloor>x\<rfloor> + 1"
  by (simp add: round_half_even_def Let_def)

lemma rhe_upper: "of_int (round_half_even x) \<le> x + 1 / 2"
proof (cases "2 * (x - of_int \<lfloor>x\<rfloor>) < 1")
  case True
  then have "round_half_even x = \<lfloor>x\<rfloor>"
    by (simp add: round_half_even_def Let_def)
  then show ?thesis
    using of_int_floor_le [of x] by linarith
next
  case False
  have "of_int (round_half_even x) \<le> (of_int \<lfloor>x\<rfloor> :: rat) + 1"
    using rhe_cases [of x] by auto
  then show ?thesis
    using False by (simp add: field_simps)
qed

lemma rhe_lower: "x - 1 / 2 \<le> of_int (round_half_even x)"
proof (cases "1 < 2 * (x - of_int \<lfloor>x\<rfloor>)")
  case True
  then have "round_half_even x = \<lfloor>x\<rfloor> + 1"
    by (simp add: round_half_even_def Let_def)
  moreover have "x < of_int \<lfloor>x\<rfloor> + 1"
    by linarith
  ultimately show ?thesis
    by simp
next
  case False
  have "(of_int \<lfloor>x\<rfloor> :: rat) \<le> of_int (round_half_even x)"
    using rhe_cases [of x] by auto
  then show ?thesis
    using False by (simp add: field_simps)
qed

lemma rhe_of_int [simp]: "round_half_even (of_int k) = k"
  by (simp add: round_half_even_def)

lemma rhe_nearI:
  assumes "\<bar>x - of_int m\<bar> < 1 / 2"
  shows "round_half_even x = m"
proof -
  have "of_int (round_half_even x) < of_int m + (1::rat)"
    using rhe_upper [of x] assms by linarith
  moreover have "of_int m - (1::rat) < of_int (round_half_even x)"
    using rhe_lower [of x] assms by linarith
  ultimately have "round_half_even x < m + 1" "m - 1 < round_half_even x"
    by (simp_all flip: of_int_less_iff [where ?'a = rat])
  then show ?thesis by simp
qed

lemma rhe_le:
  assumes "x \<le> of_int k"
  shows "round_half_even x \<le> k"
proof -
  have "of_int (round_half_even x) < of_int k + (1::rat)"
    using rhe_upper [of x] assms by linarith
  then have "round_half_even x < k + 1"
    by (simp flip: of_int_less_iff [where ?'a = rat])
  then show ?thesis by simp
qed

lemma rhe_ge:
  assumes "of_int k \<le> x"
  shows "k \<le> round_half_even x"
proof -
  have "of_int k - (1::rat) < of_int (round_half_even x)"
    using rhe_lower [of x] assms by linarith
  then have "k - 1 < round_half_even x"
    by (simp flip: of_int_less_iff [where ?'a = rat])
  then show ?thesis by simp
qed

subsection \<open>Powers of two and the binary logarithm\<close>

lemma powi_pos [simp]: "0 < (2::rat) powi e"
  by simp

lemma powi_less_iff: "(2::rat) powi a < 2 powi b \<longleftrightarrow> a < b"
  by (metis linorder_not_less nless_le one_less_numeral_iff power_int_increasing
      power_int_strict_increasing semiring_norm(76))

lemma powi_le_iff: "(2::rat) powi a \<le> 2 powi b \<longleftrightarrow> a \<le> b"
  by (metis linorder_not_less powi_less_iff)

lemma log2_floor_bounds:
  assumes "0 < a"
  shows "2 powi (log2_floor a) \<le> a" and "a < 2 powi (log2_floor a + 1)"
proof -
  obtain p q where pq: "quotient_of a = (p, q)" by (cases "quotient_of a")
  then have q: "0 < q" and a: "a = of_int p / of_int q"
    by (simp_all add: quotient_of_denom_pos quotient_of_div)
  have p: "0 < p" using assms q a by (simp add: zero_less_divide_iff)
  define bp bq where "bp = bitlen p" and "bq = bitlen q"
  have bp: "2 ^ nat (bp - 1) \<le> p" "p < 2 ^ nat bp"
    using bitlen_bounds [OF p] by (simp_all add: bp_def)
  have bq: "2 ^ nat (bq - 1) \<le> q" "q < 2 ^ nat bq"
    using bitlen_bounds [OF q] by (simp_all add: bq_def)
  have bp1: "1 \<le> bp" using p by (simp add: bp_def bitlen_alt_def)
  have bq1: "1 \<le> bq" using q by (simp add: bq_def bitlen_alt_def)
  have "(of_int (2 ^ nat (bp - 1)) :: rat) \<le> of_int p"
    using bp(1) by (simp only: of_int_le_iff)
  then have P1: "(2::rat) powi (bp - 1) \<le> of_int p"
    using bp1 by (simp add: power_int_def)
  have "(of_int p :: rat) < of_int (2 ^ nat bp)"
    using bp(2) by (simp only: of_int_less_iff)
  then have P2: "of_int p < (2::rat) powi bp"
    using bp1 by (simp add: power_int_def)
  have "(of_int (2 ^ nat (bq - 1)) :: rat) \<le> of_int q"
    using bq(1) by (simp only: of_int_le_iff)
  then have Q1: "(2::rat) powi (bq - 1) \<le> of_int q"
    using bq1 by (simp add: power_int_def)
  have "(of_int q :: rat) < of_int (2 ^ nat bq)"
    using bq(2) by (simp only: of_int_less_iff)
  then have Q2: "of_int q < (2::rat) powi bq"
    using bq1 by (simp add: power_int_def)
  have qpos: "0 < (of_int q :: rat)" using q by simp
  have up: "a < 2 powi (bp - bq + 1)"
  proof -
    have "of_int p < (2::rat) powi (bp - bq + 1) * 2 powi (bq - 1)"
      using P2 by (simp flip: power_int_add)
    also have "\<dots> \<le> 2 powi (bp - bq + 1) * of_int q"
      using Q1 by (intro mult_left_mono) simp_all
    finally show ?thesis using qpos by (simp add: a pos_divide_less_eq)
  qed
  have lo: "2 powi (bp - bq - 1) \<le> a"
  proof -
    have "(2::rat) powi (bp - bq - 1) * of_int q \<le> 2 powi (bp - bq - 1) * 2 powi bq"
      using Q2 by (intro mult_left_mono) simp_all
    also have "\<dots> = 2 powi (bp - 1)"
      by (simp flip: power_int_add)
    also have "\<dots> \<le> of_int p" by (rule P1)
    finally show ?thesis using qpos by (simp add: a pos_le_divide_eq)
  qed
  have l: "log2_floor a = (if a < 2 powi (bp - bq) then bp - bq - 1 else bp - bq)"
    by (simp add: log2_floor_def pq bp_def bq_def)
  show "2 powi (log2_floor a) \<le> a"
    using lo by (simp add: l)
  show "a < 2 powi (log2_floor a + 1)"
    using up by (simp add: l)
qed

lemma log2_floor_unique:
  assumes "0 < a" and "2 powi l \<le> a" and "a < 2 powi (l + 1)"
  shows "log2_floor a = l"
proof -
  have "(2::rat) powi l < 2 powi (log2_floor a + 1)"
    using assms(2) log2_floor_bounds(2) [OF assms(1)] by linarith
  moreover have "(2::rat) powi (log2_floor a) < 2 powi (l + 1)"
    using assms(3) log2_floor_bounds(1) [OF assms(1)] by linarith
  ultimately show ?thesis
    by (simp add: powi_less_iff)
qed

subsection \<open>The grid of the doubles\<close>

lemma on_gridI: "\<bar>M\<bar> < 2 ^ 53 \<Longrightarrow> - 1074 \<le> e \<Longrightarrow> y = of_int M * 2 powi e \<Longrightarrow> on_grid y"
  unfolding on_grid_def by blast

lemma on_grid_0 [simp]: "on_grid 0"
  by (rule on_gridI [of 0 0]) simp_all

lemma on_grid_of_int: "\<bar>i\<bar> < 2 ^ 53 \<Longrightarrow> on_grid (of_int i)"
  by (rule on_gridI [of i 0]) simp_all

lemma exponent_facts:
  assumes "0 < a" and "e = max (- 1074) (log2_floor a - 52)"
  shows "- 1074 \<le> e" and "a < 2 powi (e + 53)" and "e = - 1074 \<or> 2 powi (e + 52) \<le> a"
proof -
  show "- 1074 \<le> e" using assms(2) by simp
  have "log2_floor a + 1 \<le> e + 53" using assms(2) by simp
  then have "(2::rat) powi (log2_floor a + 1) \<le> 2 powi (e + 53)"
    by (simp add: powi_le_iff)
  then show "a < 2 powi (e + 53)"
    using log2_floor_bounds(2) [OF assms(1)] by linarith
  show "e = - 1074 \<or> 2 powi (e + 52) \<le> a"
  proof (cases "e = - 1074")
    case False
    then have "e + 52 = log2_floor a" using assms(2) by (simp add: max_def split: if_splits)
    then show ?thesis using log2_floor_bounds(1) [OF assms(1)] by simp
  qed simp
qed

lemma round_nearest_pos:
  assumes "0 < x"
  shows "round_nearest x =
    of_int (round_half_even (x / 2 powi (max (- 1074) (log2_floor x - 52)))) *
      2 powi (max (- 1074) (log2_floor x - 52))"
  using assms by (simp add: round_nearest_def Let_def)

lemma round_nearest_neg: "round_nearest (- x) = - round_nearest x"
  by (simp add: round_nearest_def Let_def)

lemma round_nearest_0 [simp]: "round_nearest 0 = 0"
  by (simp add: round_nearest_def)

lemma round_nearest_nonneg:
  assumes "0 \<le> x"
  shows "0 \<le> round_nearest x"
proof (cases "x = 0")
  case False
  then have x: "0 < x" using assms by simp
  have "0 \<le> x / 2 powi (max (- 1074) (log2_floor x - 52))"
    using x by simp
  then have "0 \<le> round_half_even (x / 2 powi (max (- 1074) (log2_floor x - 52)))"
    by (intro rhe_ge) simp
  then show ?thesis
    unfolding round_nearest_pos [OF x] by simp
qed simp

lemma round_nearest_exact_pos:
  assumes "0 < M" and "M < 2 ^ 53" and "- 1074 \<le> e'"
  shows "round_nearest (of_int M * 2 powi e') = of_int M * 2 powi e'"
proof -
  let ?a = "of_int M * (2::rat) powi e'"
  define e where "e = max (- 1074) (log2_floor ?a - 52)"
  have a: "0 < ?a" using assms(1) by simp
  have "(of_int M :: rat) < of_int (2 ^ 53)"
    using assms(2) by (simp only: of_int_less_iff)
  then have "?a < 2 ^ 53 * 2 powi e'"
    by simp
  also have "\<dots> = 2 powi (53 + e')"
    by (simp add: power_int_add)
  finally have "(2::rat) powi (log2_floor ?a) < 2 powi (53 + e')"
    using log2_floor_bounds(1) [OF a] by linarith
  then have "log2_floor ?a < 53 + e'"
    by (simp add: powi_less_iff)
  then have le: "e \<le> e'"
    using assms(3) by (simp add: e_def)
  have "(2::rat) powi e' = 2 powi (e' - e) * 2 powi e"
    by (simp flip: power_int_add)
  also have "(2::rat) powi (e' - e) = of_int (2 ^ nat (e' - e))"
    using le by (simp add: power_int_def)
  finally have "?a / 2 powi e = of_int (M * 2 ^ nat (e' - e))"
    by simp
  then have "round_half_even (?a / 2 powi e) = M * 2 ^ nat (e' - e)"
    by (simp only: rhe_of_int)
  then have "round_nearest ?a = of_int (M * 2 ^ nat (e' - e)) * 2 powi e"
    unfolding round_nearest_pos [OF a] e_def by simp
  also have "\<dots> = of_int M * (2 powi (e' - e) * 2 powi e)"
    using le by (simp add: power_int_def)
  also have "\<dots> = ?a"
    by (simp flip: power_int_add)
  finally show ?thesis .
qed

lemma round_nearest_exact:
  assumes "on_grid y"
  shows "round_nearest y = y"
proof -
  obtain M e where M: "\<bar>M\<bar> < 2 ^ 53" and e: "- 1074 \<le> e" and y: "y = of_int M * 2 powi e"
    using assms unfolding on_grid_def by blast
  consider "M = 0" | "0 < M" | "M < 0" by linarith
  then show ?thesis
  proof cases
    case 1
    then show ?thesis by (simp add: y)
  next
    case 2
    then show ?thesis
      using M e unfolding y by (intro round_nearest_exact_pos) simp_all
  next
    case 3
    then have "round_nearest (of_int (- M) * 2 powi e) = of_int (- M) * 2 powi e"
      using M e by (intro round_nearest_exact_pos) simp_all
    then have "round_nearest (- y) = - y"
      by (simp add: y)
    then show ?thesis
      by (simp add: round_nearest_neg)
  qed
qed

lemma on_grid_minus: "on_grid y \<Longrightarrow> on_grid (- y)"
proof -
  assume "on_grid y"
  then obtain M e where "\<bar>M\<bar> < 2 ^ 53" "- 1074 \<le> e" "y = of_int M * 2 powi e"
    unfolding on_grid_def by blast
  then show ?thesis
    by (intro on_gridI [of "- M" e]) simp_all
qed

lemma on_grid_round_nearest_pos:
  assumes "0 < x"
  shows "on_grid (round_nearest x)"
proof -
  define e where "e = max (- 1074) (log2_floor x - 52)"
  define m where "m = round_half_even (x / 2 powi e)"
  have e: "- 1074 \<le> e" and up: "x < 2 powi (e + 53)"
    using exponent_facts [OF assms e_def] by simp_all
  have r: "round_nearest x = of_int m * 2 powi e"
    unfolding round_nearest_pos [OF assms] m_def e_def by simp
  have "x / 2 powi e < 2 powi (e + 53) / 2 powi e"
    using up by (simp add: divide_strict_right_mono)
  also have "\<dots> = of_int (2 ^ 53)"
    by (simp add: power_int_add)
  finally have "m \<le> 2 ^ 53"
    unfolding m_def by (intro rhe_le) simp
  moreover have "0 \<le> m"
    unfolding m_def using assms by (intro rhe_ge) simp
  ultimately consider "m < 2 ^ 53" | "m = 2 ^ 53" by linarith
  then show ?thesis
  proof cases
    case 1
    with \<open>0 \<le> m\<close> e r show ?thesis
      by (intro on_gridI [of m e]) simp_all
  next
    case 2
    have "round_nearest x = of_int (2 ^ 52) * 2 powi (e + 1)"
      unfolding r 2 by (simp add: power_int_add)
    then show ?thesis
      using e by (intro on_gridI [of "2 ^ 52" "e + 1"]) simp_all
  qed
qed

lemma on_grid_round_nearest: "on_grid (round_nearest x)"
proof -
  consider "x = 0" | "0 < x" | "x < 0" by linarith
  then show ?thesis
  proof cases
    case 3
    then have "on_grid (round_nearest (- x))"
      by (intro on_grid_round_nearest_pos) simp
    then have "on_grid (- round_nearest (- x))"
      by (rule on_grid_minus)
    then show ?thesis
      by (simp add: round_nearest_neg)
  qed (simp_all add: on_grid_round_nearest_pos)
qed

lemma on_grid_floor_frac:
  assumes "on_grid x" and "0 \<le> x"
  shows "on_grid (of_int \<lfloor>x\<rfloor>)" and "on_grid (x - of_int \<lfloor>x\<rfloor>)"
proof -
  obtain M e where M: "\<bar>M\<bar> < 2 ^ 53" and e: "- 1074 \<le> e" and x: "x = of_int M * 2 powi e"
    using assms(1) unfolding on_grid_def by blast
  have M0: "0 \<le> M"
  proof (rule ccontr)
    assume "\<not> 0 \<le> M"
    then have "of_int M * (2::rat) powi e < 0"
      by (simp add: mult_neg_pos)
    then show False
      using assms(2) x by simp
  qed
  have "on_grid (of_int \<lfloor>x\<rfloor>) \<and> on_grid (x - of_int \<lfloor>x\<rfloor>)"
  proof (cases "0 \<le> e")
    case True
    then have "x = of_int (M * 2 ^ nat e)"
      unfolding x by (simp add: power_int_def)
    then have eq: "of_int \<lfloor>x\<rfloor> = x"
      by (metis floor_of_int)
    show ?thesis
      unfolding eq using assms(1) by simp
  next
    case False
    define n where "n = nat (- e)"
    have p: "(2::rat) powi e = 1 / of_int (2 ^ n)"
      using False by (simp add: power_int_def n_def field_simps)
    have xd: "x = of_int M / of_int (2 ^ n)"
      unfolding x p by simp
    have fl: "\<lfloor>x\<rfloor> = M div 2 ^ n"
      unfolding xd by (rule floor_divide_of_int_eq)
    have d0: "0 \<le> M div 2 ^ n"
      using M0 by (simp add: pos_imp_zdiv_nonneg_iff)
    have "M div 2 ^ n \<le> M div 1"
      using M0 by (intro zdiv_mono2) simp_all
    then have d1: "M div 2 ^ n \<le> M"
      by simp
    have m0: "0 \<le> M mod 2 ^ n" "M mod 2 ^ n \<le> M"
      using M0 by (simp_all add: zmod_le_nonneg_dividend)
    have "on_grid (of_int (M div 2 ^ n))"
      using d0 d1 M by (intro on_grid_of_int) simp
    moreover have "x - of_int (M div 2 ^ n) = of_int (M mod 2 ^ n) * 2 powi e"
    proof -
      have "(of_int M :: rat) = of_int ((M div 2 ^ n) * 2 ^ n + M mod 2 ^ n)"
        by (simp only: div_mult_mod_eq)
      then have "(of_int M :: rat) = of_int (M div 2 ^ n) * 2 ^ n + of_int (M mod 2 ^ n)"
        by simp
      then show ?thesis
        unfolding xd p by (simp add: field_simps)
    qed
    then have "on_grid (x - of_int (M div 2 ^ n))"
      using m0 M e by (intro on_gridI [of "M mod 2 ^ n" e]) simp_all
    ultimately show ?thesis
      by (simp add: fl)
  qed
  then show "on_grid (of_int \<lfloor>x\<rfloor>)" and "on_grid (x - of_int \<lfloor>x\<rfloor>)"
    by simp_all
qed

lemma on_grid_below_one:
  assumes "on_grid f" and "f < 1"
  shows "f \<le> 1 - 2 powi (- 53)"
proof -
  obtain M e where M: "\<bar>M\<bar> < 2 ^ 53" and e: "- 1074 \<le> e" and f: "f = of_int M * 2 powi e"
    using assms(1) unfolding on_grid_def by blast
  have c: "(2::rat) powi (- 53) \<le> 1 / 2"
    by simp
  show ?thesis
  proof (cases "- 53 \<le> e")
    case True
    define K where "K = M * 2 ^ nat (e + 53)"
    have "f * 2 ^ 53 = of_int M * (2 powi e * 2 powi 53)"
      by (simp add: f)
    also have "2 powi e * 2 powi 53 = (2::rat) powi (e + 53)"
      by (simp add: power_int_add)
    also have "\<dots> = of_int (2 ^ nat (e + 53))"
      using True by (simp add: power_int_def)
    finally have K: "f * 2 ^ 53 = of_int K"
      by (simp add: K_def)
    have "f * 2 ^ 53 < of_int (2 ^ 53)"
      using assms(2) by simp
    then have "K < 2 ^ 53"
      unfolding K by (simp only: of_int_less_iff)
    then have "K \<le> 2 ^ 53 - 1" by simp
    then have "(of_int K :: rat) \<le> of_int (2 ^ 53 - 1)"
      by (simp only: of_int_le_iff)
    then have "f * 2 ^ 53 \<le> 2 ^ 53 - 1"
      unfolding K by simp
    then show ?thesis
      by (simp add: field_simps)
  next
    case False
    then have "e \<le> - 54" by simp
    then have p: "(2::rat) powi e \<le> 2 powi (- 54)"
      by (simp only: powi_le_iff)
    have "f \<le> 1 / 2"
    proof (cases "0 \<le> M")
      case True
      have "(of_int M :: rat) \<le> of_int (2 ^ 53)"
        using M by (simp only: of_int_le_iff)
      then have "of_int M * (2::rat) powi e \<le> of_int (2 ^ 53) * 2 powi (- 54)"
        using p True by (intro mult_mono') simp_all
      then show ?thesis
        unfolding f by simp
    next
      case False
      then have "of_int M * (2::rat) powi e \<le> 0"
        by (simp add: mult_le_0_iff)
      then show ?thesis
        unfolding f by simp
    qed
    then show ?thesis
      using c by linarith
  qed
qed

text \<open>Rounding a product below 60.\<close>

lemma round_nearest_below_60:
  assumes "0 \<le> z" and "z \<le> 60 - 60 * 2 powi (- 53)"
  shows "round_nearest z < 60"
proof (cases "z = 0")
  case False
  then have z: "0 < z" using assms(1) by simp
  define e where "e = max (- 1074) (log2_floor z - 52)"
  define m where "m = round_half_even (z / 2 powi e)"
  define K :: int where "K = 60 * 2 ^ nat (- e)"
  have r: "round_nearest z = of_int m * 2 powi e"
    unfolding round_nearest_pos [OF z] m_def e_def by simp
  have "z < 2 powi 6"
    using assms(2) by simp
  then have "(2::rat) powi (log2_floor z) < 2 powi 6"
    using log2_floor_bounds(1) [OF z] by linarith
  then have "log2_floor z < 6"
    by (simp only: powi_less_iff)
  then have e47: "e \<le> - 47"
    by (simp add: e_def)
  have inv: "1 / (2::rat) powi e = of_int (2 ^ nat (- e))"
    using e47 by (simp add: power_int_def field_simps)
  have K: "60 / (2::rat) powi e = of_int K"
    using inv by (simp add: K_def)
  have "- 53 - e \<ge> - 6" using e47 by simp
  then have "(2::rat) powi (- 6) \<le> 2 powi (- 53 - e)"
    by (simp only: powi_le_iff)
  then have half: "1 / 2 < 60 * (2::rat) powi (- 53 - e)"
    by simp
  have "z / 2 powi e \<le> (60 - 60 * 2 powi (- 53)) / 2 powi e"
    by (rule divide_right_mono [OF assms(2)]) simp
  also have "\<dots> = of_int K - 60 * (2 powi (- 53) / 2 powi e)"
    using K by (simp add: diff_divide_distrib)
  also have "2 powi (- 53) / (2::rat) powi e = 2 powi (- 53 - e)"
    by (simp add: power_int_diff)
  finally have "z / 2 powi e + 1 / 2 < of_int K"
    using half by linarith
  then have "of_int m < (of_int K :: rat)"
    using rhe_upper [of "z / 2 powi e"] unfolding m_def by linarith
  then have "m \<le> K - 1"
    by simp
  then have "(of_int m :: rat) \<le> of_int (K - 1)"
    by (simp only: of_int_le_iff)
  then have "of_int m * (2::rat) powi e \<le> of_int (K - 1) * 2 powi e"
    by (intro mult_right_mono) simp_all
  also have "\<dots> = of_int K * 2 powi e - 2 powi e"
    by (simp add: algebra_simps)
  also have "of_int K * (2::rat) powi e = 60"
    using K by (simp add: field_simps)
  finally show ?thesis
    unfolding r using powi_pos [of e] by linarith
qed simp

subsection \<open>Finite and infinite results\<close>

lemma round_double_exact:
  assumes "on_grid y" and "\<bar>y\<bar> < 2 ^ 1024"
  shows "round_double y = Fin y"
  using assms by (simp add: round_double_def round_nearest_exact)

lemma round_double_nonneg:
  assumes "0 \<le> x"
  shows "round_double x = PInf \<or>
         (round_double x = Fin (round_nearest x) \<and> round_nearest x < 2 ^ 1024)"
proof (cases "x = 0")
  case True
  then show ?thesis by (simp add: round_double_def)
next
  case False
  then have "0 < x" using assms by simp
  moreover have "0 \<le> round_nearest x"
    using assms by (rule round_nearest_nonneg)
  ultimately show ?thesis
    by (simp add: round_double_def Let_def not_le)
qed

lemma round_double_overflow:
  assumes "2 ^ 1024 \<le> x"
  shows "round_double x = PInf"
proof -
  have x: "0 < x"
    using assms by (rule less_le_trans [rotated]) simp
  define l where "l = log2_floor x"
  define e where "e = max (- 1074) (l - 52)"
  define m where "m = round_half_even (x / 2 powi e)"
  have lo: "2 powi l \<le> x" and up: "x < 2 powi (l + 1)"
    using log2_floor_bounds [OF x] by (simp_all add: l_def)
  have "(2::rat) powi 1024 < 2 powi (l + 1)"
    using assms up by simp
  then have "1024 < l + 1"
    by (simp only: powi_less_iff)
  then have e: "e = l - 52"
    by (simp add: e_def)
  have r: "round_nearest x = of_int m * 2 powi e"
    unfolding round_nearest_pos [OF x] m_def e_def l_def by simp
  have "(2::rat) powi l / 2 powi e \<le> x / 2 powi e"
    by (rule divide_right_mono [OF lo]) simp
  moreover have "(2::rat) powi l / 2 powi e = of_int (2 ^ 52)"
    unfolding e by (simp flip: power_int_diff)
  ultimately have "2 ^ 52 \<le> m"
    unfolding m_def by (intro rhe_ge) simp
  then have "(of_int (2 ^ 52) :: rat) \<le> of_int m"
    by (simp only: of_int_le_iff)
  then have c: "of_int (2 ^ 52) * (2::rat) powi e \<le> of_int m * 2 powi e"
    by (intro mult_right_mono) simp_all
  have b: "(2::rat) powi l = of_int (2 ^ 52) * 2 powi e"
    unfolding e by (simp add: power_int_diff)
  from \<open>1024 < l + 1\<close> have "1024 \<le> l"
    by simp
  then have "(2::rat) powi 1024 \<le> 2 powi l"
    by (simp only: powi_le_iff)
  also note b
  also note c
  finally have "2 ^ 1024 \<le> round_nearest x"
    unfolding r by simp
  moreover have "0 \<le> round_nearest x"
    using x by (intro round_nearest_nonneg) simp
  ultimately show ?thesis
    using x by (simp add: round_double_def Let_def)
qed

text \<open>
  A certificate for a rounding in the normal range: the significand \<open>m\<close> and the
  exponent \<open>e\<close>.
\<close>

lemma round_nearest_eqI:
  assumes "0 < x" and "- 1074 \<le> e"
    and "2 powi (e + 52) \<le> x" and "x < 2 powi (e + 53)"
    and "\<bar>x / 2 powi e - of_int m\<bar> < 1 / 2"
  shows "round_nearest x = of_int m * 2 powi e"
proof -
  have "log2_floor x = e + 52"
    using assms(1,3,4) by (intro log2_floor_unique) (simp_all add: add.commute)
  then have "max (- 1074) (log2_floor x - 52) = e"
    using assms(2) by simp
  then show ?thesis
    unfolding round_nearest_pos [OF assms(1)] using rhe_nearI [OF assms(5)] by simp
qed

subsection \<open>The operations of the running pace\<close>

lemma float_of_int_exact:
  assumes "\<bar>i\<bar> < 2 ^ 53"
  shows "float_of_int i = Inr (Fin (of_int i))"
proof -
  have "(of_int \<bar>i\<bar> :: rat) < of_int (2 ^ 53)"
    using assms by (simp only: of_int_less_iff)
  also have "\<dots> \<le> 2 ^ 1024"
    by simp
  finally have "\<bar>of_int i :: rat\<bar> < 2 ^ 1024"
    by simp
  then show ?thesis
    using assms by (simp add: float_of_int_def round_double_exact on_grid_of_int)
qed

lemma float_of_int_nonneg:
  assumes "0 \<le> i"
  shows "float_of_int i = Inl OverflowError \<or>
         (float_of_int i = Inr (Fin (round_nearest (of_int i))) \<and>
          0 \<le> round_nearest (of_int i))"
proof -
  have i: "0 \<le> (of_int i :: rat)" using assms by simp
  show ?thesis
    using round_double_nonneg [OF i] round_nearest_nonneg [OF i]
    by (auto simp add: float_of_int_def)
qed

text \<open>Line 107 for a distance above 0 and a duration of at least 0.\<close>

lemma pace_decimal_cases:
  assumes "0 < d" and "0 \<le> dur"
  shows "py_truediv_int_float dur (Fin d) = Inl OverflowError \<or>
         py_truediv_int_float dur (Fin d) = Inr PInf \<or>
         (py_truediv_int_float dur (Fin d) =
            Inr (Fin (round_nearest (round_nearest (of_int dur) / d))) \<and>
          0 \<le> round_nearest (round_nearest (of_int dur) / d) \<and>
          round_nearest (round_nearest (of_int dur) / d) < 2 ^ 1024)"
proof -
  let ?t = "round_nearest (of_int dur)"
  consider "float_of_int dur = Inl OverflowError"
    | "float_of_int dur = Inr (Fin ?t)" "0 \<le> ?t"
    using float_of_int_nonneg [OF assms(2)] by blast
  then show ?thesis
  proof cases
    case 1
    then show ?thesis
      by (simp add: py_truediv_int_float_def)
  next
    case 2
    have q: "0 \<le> ?t / d"
      using 2(2) assms(1) by simp
    have "py_truediv_int_float dur (Fin d) = Inr (round_double (?t / d))"
      using 2(1) assms(1) by (simp add: py_truediv_int_float_def py_truediv_def float_div_def)
    then show ?thesis
      using round_double_nonneg [OF q] round_nearest_nonneg [OF q] by auto
  qed
qed

text \<open>Lines 108-110 for a finite pace of at least 0.\<close>

lemma minutes_seconds_finite:
  assumes "0 \<le> x" and "on_grid x" and "x < 2 ^ 1024"
  shows "minutes_seconds (Fin x) =
           Inr (str_int \<lfloor>x\<rfloor> @ '':'' @
                fmt_02d \<lfloor>round_nearest (round_nearest (x - of_int \<lfloor>x\<rfloor>) * 60)\<rfloor> @ '' /km'')"
    and "0 \<le> \<lfloor>round_nearest (round_nearest (x - of_int \<lfloor>x\<rfloor>) * 60)\<rfloor>"
    and "\<lfloor>round_nearest (round_nearest (x - of_int \<lfloor>x\<rfloor>) * 60)\<rfloor> \<le> 59"
proof -
  define f where "f = x - of_int \<lfloor>x\<rfloor>"
  define y where "y = round_nearest (f * 60)"
  have f0: "0 \<le> f" and f1: "f < 1"
    unfolding f_def by linarith+
  have gm: "on_grid (of_int \<lfloor>x\<rfloor>)" and gf: "on_grid f"
    unfolding f_def using on_grid_floor_frac [OF assms(2,1)] by simp_all
  have fx: "round_nearest f = f"
    using gf by (rule round_nearest_exact)
  have m0: "0 \<le> \<lfloor>x\<rfloor>" using assms(1) by simp
  have "(of_int \<lfloor>x\<rfloor> :: rat) \<le> x" by simp
  then have "\<bar>of_int \<lfloor>x\<rfloor> :: rat\<bar> < 2 ^ 1024"
    using assms(3) m0 by simp
  then have cm: "float_of_int \<lfloor>x\<rfloor> = Inr (Fin (of_int \<lfloor>x\<rfloor>))"
    using gm by (simp add: float_of_int_def round_double_exact)
  have "(1::rat) < 2 ^ 1024"
    by simp
  then have "\<bar>f\<bar> < 2 ^ 1024"
    using f0 f1 by linarith
  then have sub: "float_sub (Fin x) (Fin (of_int \<lfloor>x\<rfloor>)) = Fin f"
    using gf by (simp add: float_sub_def round_double_exact f_def)
  have c60: "float_of_int 60 = Inr (Fin 60)"
    using float_of_int_exact [of 60] by simp
  have "f \<le> 1 - 2 powi (- 53)"
    using gf f1 by (rule on_grid_below_one)
  then have "f * 60 \<le> 60 - 60 * 2 powi (- 53)"
    by (simp add: algebra_simps)
  moreover have p0: "0 \<le> f * 60"
    using f0 by simp
  ultimately have y60: "y < 60"
    unfolding y_def by (intro round_nearest_below_60)
  have y0: "0 \<le> y"
    unfolding y_def using p0 by (rule round_nearest_nonneg)
  have "(60::rat) < 2 ^ 1024"
    by simp
  then have "\<bar>y\<bar> < 2 ^ 1024"
    using y0 y60 by linarith
  then have mul: "float_mul (Fin f) (Fin 60) = Fin y"
    by (simp add: float_mul_def round_double_def y_def Let_def)
  have "minutes_seconds (Fin x) = Inr (str_int \<lfloor>x\<rfloor> @ '':'' @ fmt_02d \<lfloor>y\<rfloor> @ '' /km'')"
    using assms(1) y0
    by (simp add: minutes_seconds_def py_sub_float_int_def py_mul_float_int_def cm sub c60 mul
        trunc_rat_def)
  then show "minutes_seconds (Fin x) =
           Inr (str_int \<lfloor>x\<rfloor> @ '':'' @
                fmt_02d \<lfloor>round_nearest (round_nearest (x - of_int \<lfloor>x\<rfloor>) * 60)\<rfloor> @ '' /km'')"
    unfolding y_def f_def [symmetric] fx .
  show "0 \<le> \<lfloor>round_nearest (round_nearest (x - of_int \<lfloor>x\<rfloor>) * 60)\<rfloor>"
    unfolding f_def [symmetric] fx using y0 by (simp add: y_def)
  have "\<lfloor>y\<rfloor> < 60"
    using y60 by (simp add: floor_less_iff)
  then show "\<lfloor>round_nearest (round_nearest (x - of_int \<lfloor>x\<rfloor>) * 60)\<rfloor> \<le> 59"
    unfolding f_def [symmetric] fx by (simp add: y_def)
qed

lemma minutes_seconds_infinite: "minutes_seconds PInf = Inl OverflowError"
  by (simp add: minutes_seconds_def)


section \<open>Properties of the save callback\<close>

subsection \<open>The two halves of a confirmed call\<close>

text \<open>A confirmed call whose two halves do not raise saves exactly one document.\<close>

lemma save_workout_callback_saves:
  assumes "ss_confirm_save s"
    and "sub_type_structure s = Inr (st, stru)"
    and "distance_pace s = Inr (d, p)"
  shows "save_workout_callback s db =
     Inr (reset_inputs st s,
          add_workout (ss_date s) (ss_category s) st (ss_duration s) d p stru (ss_rpe s)
            (ss_notes s) db)"
  using assms by (simp add: save_workout_callback_def)

lemma save_workout_callback_raises:
  assumes "ss_confirm_save s"
    and "sub_type_structure s = Inr (st, stru)"
    and "distance_pace s = Inl e"
  shows "save_workout_callback s db = Inl e"
  using assms by (simp add: save_workout_callback_def)

lemma save_workout_callback_InrD:
  assumes "ss_confirm_save s"
    and "save_workout_callback s db = Inr (s', db')"
  shows "\<exists>st stru d p.
     sub_type_structure s = Inr (st, stru) \<and> distance_pace s = Inr (d, p) \<and>
     s' = reset_inputs st s \<and>
     db' = add_workout (ss_date s) (ss_category s) st (ss_duration s) d p stru (ss_rpe s)
             (ss_notes s) db"
  using assms
  by (auto simp add: save_workout_callback_def bind_err_def split: sum.splits prod.splits)

lemma sub_type_structure_not_interval:
  assumes "sub_type_structure s = Inr (st, stru)"
    and "\<not> is_interval (ss_category s) st"
  shows "stru = ''''"
  using assms
  by (auto simp add: sub_type_structure_def is_interval_def bind_err_def get_attr_def
      split: if_splits option.splits)

subsection \<open>Digits\<close>

lemma dec_nat_ne: "dec_nat n \<noteq> []"
  by (subst dec_nat.simps) simp

lemma digit_char_is_digit: "n < 10 \<Longrightarrow> is_digit (digit_char n)"
  unfolding digit_char_def is_digit_def by (rule nth_mem) simp

lemma dec_nat_digits: "\<forall>c\<in>set (dec_nat n). is_digit c"
proof (induction n rule: dec_nat.induct)
  case (1 n)
  show ?case
  proof (cases "n < 10")
    case True
    then show ?thesis
      using digit_char_is_digit [of n] by (subst dec_nat.simps) simp
  next
    case False
    have "is_digit (digit_char (n mod 10))"
      by (rule digit_char_is_digit) simp
    with False 1 show ?thesis
      by (subst dec_nat.simps) simp
  qed
qed

lemma fmt_02d_two_digits:
  assumes "0 \<le> i" and "i \<le> 59"
  shows "fmt_02d i = spec_two_digits i"
proof (cases "nat i < 10")
  case True
  then have "dec_nat (nat i) = [digit_char (nat i)]"
    by (subst dec_nat.simps) simp
  moreover have "nat i div 10 = 0" and "nat i mod 10 = nat i"
    using True by simp_all
  moreover have "digit_char 0 = CHR ''0''"
    by (simp add: digit_char_def)
  ultimately show ?thesis
    using assms by (simp add: fmt_02d_def spec_two_digits_def)
next
  case False
  have "nat i < 60" using assms by simp
  then have "nat i div 10 < 10" by simp
  then have "dec_nat (nat i div 10) = [digit_char (nat i div 10)]"
    by (subst dec_nat.simps) simp
  then have "dec_nat (nat i) = [digit_char (nat i div 10), digit_char (nat i mod 10)]"
    using False by (subst dec_nat.simps) simp
  then show ?thesis
    using assms by (simp add: fmt_02d_def spec_two_digits_def)
qed

lemma well_formed_paceI:
  assumes "0 \<le> m" and "0 \<le> sec" and "sec \<le> 59"
  shows "well_formed_pace (str_int m @ '':'' @ fmt_02d sec @ '' /km'')"
proof -
  let ?ms = "dec_nat (nat m)"
  let ?a = "digit_char (nat sec div 10)" and ?b = "digit_char (nat sec mod 10)"
  let ?rest = "CHR '':'' # ?a # ?b # '' /km''"
  have p: "str_int m @ '':'' @ fmt_02d sec @ '' /km'' = ?ms @ ?rest"
    using assms by (simp add: str_int_def fmt_02d_two_digits spec_two_digits_def)
  have colon: "\<not> is_digit (CHR '':'')"
    by (simp add: is_digit_def)
  have tw: "takeWhile is_digit (?ms @ ?rest) = ?ms"
    using dec_nat_digits [of "nat m"] colon by simp
  have dw: "dropWhile is_digit (?ms @ ?rest) = ?rest"
    using dec_nat_digits [of "nat m"] colon by simp
  have "nat sec div 10 < 10" using assms by simp
  then have a: "is_digit ?a" by (rule digit_char_is_digit)
  have b: "is_digit ?b" by (rule digit_char_is_digit) simp
  show ?thesis
    unfolding p well_formed_pace_def Let_def tw dw
    using a b dec_nat_ne [of "nat m"] by simp
qed

subsection \<open>The computed running pace\<close>

text \<open>Conversions and quotients either are finite doubles or overflow.\<close>

lemma float_of_int_eq:
  "float_of_int i =
     (if finite_double (of_int i) then Inr (Fin (round_nearest (of_int i)))
      else Inl OverflowError)"
  by (simp add: float_of_int_def round_double_def finite_double_def Let_def not_le)

lemma round_double_nonneg_eq:
  assumes "0 \<le> x"
  shows "round_double x = (if finite_double x then Fin (round_nearest x) else PInf)"
proof (cases "x = 0")
  case True
  then show ?thesis by (simp add: round_double_def finite_double_def)
next
  case False
  then have "0 < x" using assms by simp
  then show ?thesis
    by (simp add: round_double_def finite_double_def Let_def not_le)
qed

lemma finite_double_nonneg:
  assumes "0 \<le> x"
  shows "finite_double x \<longleftrightarrow> round_nearest x < 2 ^ 1024"
  using round_nearest_nonneg [OF assms] by (simp add: finite_double_def)

lemma running_pace_eq:
  assumes "0 < d" and "0 \<le> dur"
  shows "running_pace dur d =
     (if pace_is_finite dur d
      then Inr (str_int \<lfloor>round_nearest (round_nearest (of_int dur) / d)\<rfloor> @ '':'' @
                fmt_02d \<lfloor>round_nearest (round_nearest
                  (round_nearest (round_nearest (of_int dur) / d) -
                   of_int \<lfloor>round_nearest (round_nearest (of_int dur) / d)\<rfloor>) * 60)\<rfloor> @
                '' /km'')
      else Inl OverflowError)"
proof -
  let ?t = "round_nearest (of_int dur)"
  let ?x = "round_nearest (?t / d)"
  have t0: "0 \<le> ?t"
    using assms(2) by (intro round_nearest_nonneg) simp
  then have q0: "0 \<le> ?t / d"
    using assms(1) by simp
  have x0: "0 \<le> ?x"
    using q0 by (rule round_nearest_nonneg)
  have d0: "Fin d \<noteq> Fin 0"
    using assms(1) by simp
  show ?thesis
  proof (cases "finite_double (of_int dur)")
    case False
    then show ?thesis
      by (simp add: running_pace_def py_truediv_int_float_def float_of_int_eq
          pace_is_finite_def)
  next
    case t: True
    have q: "py_truediv_int_float dur (Fin d) = Inr (round_double (?t / d))"
      using t d0 by (simp add: py_truediv_int_float_def float_of_int_eq py_truediv_def
          float_div_def)
    show ?thesis
    proof (cases "finite_double (?t / d)")
      case False
      then have "round_double (?t / d) = PInf"
        using q0 by (simp add: round_double_nonneg_eq)
      then show ?thesis
        using t False
        by (simp add: running_pace_def q minutes_seconds_infinite pace_is_finite_def)
    next
      case True
      then have r: "round_double (?t / d) = Fin ?x"
        using q0 by (simp add: round_double_nonneg_eq)
      have "?x < 2 ^ 1024"
        using True q0 by (simp add: finite_double_nonneg)
      with x0 on_grid_round_nearest
      have "minutes_seconds (Fin ?x) =
           Inr (str_int \<lfloor>?x\<rfloor> @ '':'' @
                fmt_02d \<lfloor>round_nearest (round_nearest (?x - of_int \<lfloor>?x\<rfloor>) * 60)\<rfloor> @ '' /km'')"
        by (rule minutes_seconds_finite(1))
      then show ?thesis
        using t True by (simp add: running_pace_def q r pace_is_finite_def)
    qed
  qed
qed

lemma seconds_range:
  assumes "0 < d" and "0 \<le> dur" and "pace_is_finite dur d"
  shows "0 \<le> \<lfloor>round_nearest (round_nearest
                  (round_nearest (round_nearest (of_int dur) / d) -
                   of_int \<lfloor>round_nearest (round_nearest (of_int dur) / d)\<rfloor>) * 60)\<rfloor>"
    and "\<lfloor>round_nearest (round_nearest
                  (round_nearest (round_nearest (of_int dur) / d) -
                   of_int \<lfloor>round_nearest (round_nearest (of_int dur) / d)\<rfloor>) * 60)\<rfloor> \<le> 59"
    and "0 \<le> \<lfloor>round_nearest (round_nearest (of_int dur) / d)\<rfloor>"
proof -
  let ?t = "round_nearest (of_int dur)"
  let ?x = "round_nearest (?t / d)"
  have t0: "0 \<le> ?t"
    using assms(2) by (intro round_nearest_nonneg) simp
  then have q0: "0 \<le> ?t / d"
    using assms(1) by simp
  have x0: "0 \<le> ?x"
    using q0 by (rule round_nearest_nonneg)
  have x1: "?x < 2 ^ 1024"
    using assms(3) q0 by (simp add: pace_is_finite_def finite_double_nonneg)
  show "0 \<le> \<lfloor>round_nearest (round_nearest (?x - of_int \<lfloor>?x\<rfloor>) * 60)\<rfloor>"
    using x0 on_grid_round_nearest x1 by (rule minutes_seconds_finite(2))
  show "\<lfloor>round_nearest (round_nearest (?x - of_int \<lfloor>?x\<rfloor>) * 60)\<rfloor> \<le> 59"
    using x0 on_grid_round_nearest x1 by (rule minutes_seconds_finite(3))
  show "0 \<le> \<lfloor>?x\<rfloor>"
    using x0 by simp
qed

lemma not_finite_doubleI:
  assumes "2 ^ 1024 \<le> x"
  shows "\<not> finite_double x"
  using round_double_overflow [OF assms]
  by (simp add: round_double_def finite_double_def Let_def split: if_splits)

text \<open>The distance and pace of a run without manual pace, and the whole call.\<close>

lemma running_callback:
  assumes "ss_confirm_save s"
    and "ss_category s = ''Running''"
    and "sub_type_structure s = Inr (st, stru)"
    and "ss_distance s = Some d"
    and "ss_manual_pace s = Some False"
    and "0 < d"
    and "running_pace (ss_duration s) d = Inr p"
  shows "save_workout_callback s db =
     Inr (reset_inputs st s,
          add_workout (ss_date s) ''Running'' st (ss_duration s) d p stru (ss_rpe s)
            (ss_notes s) db)"
proof -
  have "distance_pace s = Inr (d, p)"
    using assms(2,4-7) by (simp add: distance_pace_def)
  then show ?thesis
    using assms(1-3) save_workout_callback_saves by simp
qed

lemma running_callback_raises:
  assumes "ss_confirm_save s"
    and "ss_category s = ''Running''"
    and "sub_type_structure s = Inr (st, stru)"
    and "ss_distance s = Some d"
    and "ss_manual_pace s = Some False"
    and "0 < d"
    and "running_pace (ss_duration s) d = Inl e"
  shows "save_workout_callback s db = Inl e"
proof -
  have "distance_pace s = Inl e"
    using assms(2,4-7) by (simp add: distance_pace_def)
  then show ?thesis
    using assms(1,3) save_workout_callback_raises by simp
qed

text \<open>The pace of the specification, from the results of its steps.\<close>

lemma spec_derive_pace_doubleI:
  assumes "round_nearest (of_int dur) = t"
    and "round_nearest (t / d) = x"
    and "\<lfloor>x\<rfloor> = m"
    and "round_nearest (x - of_int m) = f"
    and "round_nearest (f * 60) = y"
    and "\<lfloor>y\<rfloor> = sec"
    and "str_int m = ms"
    and "spec_two_digits sec = ss"
  shows "spec_derive_pace_double dur d = ms @ '':'' @ ss @ '' /km''"
  using assms by (simp add: spec_derive_pace_double_def)

lemma running_pace_spec_double:
  assumes "0 < d" and "0 \<le> dur" and "pace_is_finite dur d"
  shows "running_pace dur d = Inr (spec_derive_pace_double dur d)"
  using assms seconds_range(1,2) [OF assms]
  by (simp add: running_pace_eq spec_derive_pace_double_def Let_def fmt_02d_two_digits)

lemma running_pace_overflow:
  assumes "0 < d" and "0 \<le> dur" and "\<not> pace_is_finite dur d"
  shows "running_pace dur d = Inl OverflowError"
  using assms by (simp add: running_pace_eq)

subsection \<open>Sample paces\<close>

lemma round_nearest_numeral:
  "\<bar>numeral k :: int\<bar> < 2 ^ 53 \<Longrightarrow> round_nearest (numeral k) = numeral k"
  using round_nearest_exact [OF on_grid_of_int [of "numeral k"]] by simp

lemma str_int_digit:
  assumes "0 \<le> i" and "i < 10"
  shows "str_int i = [digit_char (nat i)]"
proof -
  have "nat i < 10"
    using assms by simp
  then have "dec_nat (nat i) = [digit_char (nat i)]"
    by (subst dec_nat.simps) simp
  then show ?thesis
    using assms by (simp add: str_int_def)
qed

text \<open>
  28 minutes over 5 km: the quotient is the double below 5.6, and the seconds are 35,
  where exact arithmetic has 5 minutes and 36 seconds.
\<close>

lemma exact_pace_28_5: "spec_derive_pace_exact 28 5 = ''5:36 /km''"
  by code_simp

lemma pace_28_5:
  "pace_is_finite 28 5"
  "spec_derive_pace_double 28 5 = ''5:35 /km''"
proof -
  have t: "round_nearest (of_int 28) = 28"
    by (simp add: round_nearest_numeral)
  have x: "round_nearest (28 / 5) = 3152519739159347 / 562949953421312"
    using round_nearest_eqI [of "28 / 5" "- 50" 6305039478318694] by simp
  have m: "\<lfloor>3152519739159347 / 562949953421312 :: rat\<rfloor> = 5"
    by (rule floor_unique) simp_all
  have f: "round_nearest (3152519739159347 / 562949953421312 - of_int 5) =
           337769972052787 / 562949953421312"
    using round_nearest_exact [OF on_gridI [of 337769972052787 "- 49"]] by simp
  have y: "round_nearest (337769972052787 / 562949953421312 * 60) =
           5066549580791805 / 140737488355328"
    using round_nearest_exact [OF on_gridI [of 5066549580791805 "- 47"]] by simp
  have sec: "\<lfloor>5066549580791805 / 140737488355328 :: rat\<rfloor> = 35"
    by (rule floor_unique) simp_all
  have ms: "str_int 5 = ''5''"
    by (simp add: str_int_digit digit_char_def)
  have ss: "spec_two_digits 35 = ''35''"
    by (simp add: spec_two_digits_def digit_char_def)
  show "spec_derive_pace_double 28 5 = ''5:35 /km''"
    using spec_derive_pace_doubleI [OF t x m f y sec ms ss] by simp
  show "pace_is_finite 28 5"
    using t x by (simp add: pace_is_finite_def finite_double_def)
qed

text \<open>
  4 minutes over 3 km, step by step: the quotient is the double below \<open>4 / 3\<close>, and
  the product of the last step is the double below 20.
\<close>

lemma steps_4_3:
  "round_nearest (of_int 4) = 4"
  "round_nearest (4 / 3) = 6004799503160661 / 4503599627370496"
  "\<lfloor>6004799503160661 / 4503599627370496 :: rat\<rfloor> = 1"
  "round_nearest (6004799503160661 / 4503599627370496 - of_int 1) =
     1501199875790165 / 4503599627370496"
  "round_nearest (1501199875790165 / 4503599627370496 * 60) =
     5629499534213119 / 281474976710656"
  "\<lfloor>5629499534213119 / 281474976710656 :: rat\<rfloor> = 19"
proof -
  show "round_nearest (of_int 4) = 4"
    by (simp add: round_nearest_numeral)
  show "round_nearest (4 / 3) = 6004799503160661 / 4503599627370496"
    using round_nearest_eqI [of "4 / 3" "- 52" 6004799503160661] by simp
  show "\<lfloor>6004799503160661 / 4503599627370496 :: rat\<rfloor> = 1"
    by (rule floor_unique) simp_all
  show "round_nearest (6004799503160661 / 4503599627370496 - of_int 1) =
           1501199875790165 / 4503599627370496"
    using round_nearest_exact [OF on_gridI [of 1501199875790165 "- 52"]] by simp
  show "round_nearest (1501199875790165 / 4503599627370496 * 60) =
           5629499534213119 / 281474976710656"
    using round_nearest_eqI [of "1501199875790165 / 4503599627370496 * 60" "- 48"
        5629499534213119]
    by simp
  show "\<lfloor>5629499534213119 / 281474976710656 :: rat\<rfloor> = 19"
    by (rule floor_unique) simp_all
qed

lemma strings_1_19: "str_int 1 = ''1''" "fmt_02d 19 = ''19''"
  by (simp_all add: str_int_digit fmt_02d_two_digits spec_two_digits_def digit_char_def)

lemma pace_4_3:
  "pace_is_finite 4 3"
  "spec_derive_pace_double 4 3 = ''1:19 /km''"
proof -
  have ss: "spec_two_digits 19 = ''19''"
    by (simp add: spec_two_digits_def digit_char_def)
  show "spec_derive_pace_double 4 3 = ''1:19 /km''"
    using spec_derive_pace_doubleI [OF steps_4_3 strings_1_19(1) ss] by simp
  show "pace_is_finite 4 3"
    using steps_4_3(1,2) by (simp add: pace_is_finite_def finite_double_def)
qed

text \<open>A pace that is a whole number of minutes.\<close>

lemma pace_whole_minutes:
  assumes "0 \<le> k" and "k < 10" and "dur = k * 5"
  shows "pace_is_finite dur 5"
    and "spec_derive_pace_double dur 5 = [digit_char (nat k)] @ '':00 /km''"
proof -
  have "\<bar>dur\<bar> < 2 ^ 53"
    using assms by simp
  then have t: "round_nearest (of_int dur) = of_int dur"
    by (intro round_nearest_exact on_grid_of_int)
  have q: "(of_int dur :: rat) / 5 = of_int k"
    using assms(3) by simp
  have "\<bar>k\<bar> < 2 ^ 53"
    using assms by simp
  then have x: "round_nearest (of_int dur / 5) = of_int k"
    unfolding q by (intro round_nearest_exact on_grid_of_int)
  have m: "\<lfloor>of_int k :: rat\<rfloor> = k"
    by simp
  have f: "round_nearest (of_int k - of_int k) = 0"
    by simp
  have y: "round_nearest (0 * 60) = 0"
    by simp
  have sec: "\<lfloor>0 :: rat\<rfloor> = 0"
    by simp
  have ms: "str_int k = [digit_char (nat k)]"
    using assms(1,2) by (rule str_int_digit)
  have ss: "spec_two_digits 0 = ''00''"
    by (simp add: spec_two_digits_def digit_char_def)
  show "spec_derive_pace_double dur 5 = [digit_char (nat k)] @ '':00 /km''"
    using spec_derive_pace_doubleI [OF t x m f y sec ms ss] by simp
  have "\<bar>of_int dur :: rat\<bar> < 2 ^ 1024" and "\<bar>of_int k :: rat\<bar> < 2 ^ 1024"
    using assms by simp_all
  then show "pace_is_finite dur 5"
    using t x by (simp add: pace_is_finite_def finite_double_def)
qed

lemma running_pace_30_5: "running_pace 30 5 = Inr ''6:00 /km''"
  using running_pace_spec_double [of 5 30] pace_whole_minutes [of 6 30]
  by (simp add: digit_char_def)


text \<open>A ride of 77 km in 176 minutes: the speed is the double above 26.25.\<close>

lemma cycling_speed_77_176: "cycling_speed 176 77 = Inr ''26.3 km/h''"
proof -
  have h: "round_nearest (176 / 60) = 6605279453476727 / 2251799813685248"
    using round_nearest_eqI [of "176 / 60" "- 51" 6605279453476727] by simp
  have hours: "py_truediv_int_int 176 60 = Inr (Fin (6605279453476727 / 2251799813685248))"
    using h by (simp add: py_truediv_int_int_def round_double_def)
  have s: "round_nearest (77 / (6605279453476727 / 2251799813685248)) =
           7388718138654721 / 281474976710656"
    using round_nearest_eqI [of "77 / (6605279453476727 / 2251799813685248)" "- 48"
        7388718138654721]
    by simp
  have speed: "py_truediv (Fin 77) (Fin (6605279453476727 / 2251799813685248)) =
      Inr (Fin (7388718138654721 / 281474976710656))"
    using s by (simp add: py_truediv_def float_div_def round_double_def)
  have f: "fmt_f 1 (7388718138654721 / 281474976710656) = ''26.3''"
    by code_simp
  show ?thesis
    unfolding cycling_speed_def hours bind_err_simps speed fmt_float.simps f by simp
qed

text \<open>Quotients above every finite double.\<close>

lemma pace_tiny_distance: "\<not> pace_is_finite 30 (2 powi (- 1030))"
proof -
  have "round_nearest (of_int 30) = 30"
    by (simp add: round_nearest_numeral)
  moreover have "\<not> finite_double (30 / 2 powi (- 1030))"
    by (rule not_finite_doubleI) (simp add: power_int_minus field_simps)
  ultimately show ?thesis
    by (simp add: pace_is_finite_def)
qed

lemma pace_smallest_distance: "\<not> pace_is_finite 1 (2 powi (- 1074))"
proof -
  have "round_nearest (of_int 1) = 1"
    using round_nearest_exact [OF on_grid_of_int [of 1]] by simp
  moreover have "\<not> finite_double (1 / 2 powi (- 1074))"
    by (rule not_finite_doubleI) (simp add: power_int_minus field_simps)
  ultimately show ?thesis
    by (simp add: pace_is_finite_def)
qed

subsection \<open>The confirmation flag\<close>

text \<open>
  C8. When \<^verbatim>\<open>confirm_save\<close> is false the callback raises nothing, leaves the collection
  as it is (\<^verbatim>\<open>add_workout\<close> is not called) and changes no key of the session state but
  \<^verbatim>\<open>warning_msg\<close>, which receives the warning.
\<close>

theorem unconfirmed_save_only_warns:
  "\<not> ss_confirm_save s \<Longrightarrow>
   save_workout_callback s db = Inr (s\<lparr>ss_warning_msg := Some warning_text\<rparr>, db)"
  by (simp add: save_workout_callback_def)

theorem unconfirmed_save_only_warns_witness:
  "\<not> ss_confirm_save form_unconfirmed \<and>
   save_workout_callback form_unconfirmed two_mondays =
     Inr (form_unconfirmed\<lparr>ss_warning_msg := Some warning_text\<rparr>, two_mondays)"
  using unconfirmed_save_only_warns [of form_unconfirmed two_mondays]
  by (simp add: form_unconfirmed_def form_run_def)

subsection \<open>Categories outside the enumeration\<close>

text \<open>
  C1, as amended. No \<^verbatim>\<open>InvalidCategory\<close> signal exists: for a category outside the five of
  the form, a confirmed call raises nothing and saves a document with sub-type
  \<^verbatim>\<open>Normal\<close>, empty structure, distance 0 and pace \<^verbatim>\<open>N/A\<close>, whatever the other inputs
  hold.
\<close>

theorem unknown_category_saved_with_defaults:
  assumes "ss_confirm_save s"
    and "ss_category s \<notin> set categories"
  shows "save_workout_callback s db =
     Inr (reset_inputs ''Normal'' s,
          db @ [\<lparr>date = ss_date s, category = ss_category s, sub_type = ''Normal'',
                 duration_min = ss_duration s, distance_km = 0, pace = ''N/A'',
                 structure = '''', rpe = ss_rpe s, notes = ss_notes s\<rparr>])"
  using assms
  by (simp add: save_workout_callback_def sub_type_structure_def distance_pace_def
      categories_def add_workout_def)

theorem unknown_category_saved_with_defaults_witness:
  "save_workout_callback form_rowing [] =
     Inr (reset_inputs ''Normal'' form_rowing,
          [\<lparr>date = ymd 2024 1 8, category = ''Rowing'', sub_type = ''Normal'',
            duration_min = 45, distance_km = 0, pace = ''N/A'', structure = '''',
            rpe = 6, notes = ''river loop''\<rparr>])"
  using unknown_category_saved_with_defaults [of form_rowing "[]"]
  by (simp add: form_rowing_def form_run_def categories_def)

text \<open>
  The claim as stated asks for a failure. For the category \<^verbatim>\<open>Yoga\<close> the call returns
  normally and the document is in the collection; the distance 5 and the structure
  text of the form are replaced by the defaults.
\<close>

theorem unknown_category_not_rejected:
  "''Yoga'' \<notin> set categories \<and>
   save_workout_callback form_yoga [] =
     Inr (reset_inputs ''Normal'' form_yoga,
          [\<lparr>date = ymd 2024 1 8, category = ''Yoga'', sub_type = ''Normal'',
            duration_min = 30, distance_km = 0, pace = ''N/A'', structure = '''',
            rpe = 6, notes = ''river loop''\<rparr>])"
  by (simp add: save_workout_callback_def sub_type_structure_def distance_pace_def
      categories_def add_workout_def form_yoga_def form_run_def)

subsection \<open>The running pace\<close>

text \<open>The sample forms.\<close>

lemma form_28_simps:
  "ss_confirm_save form_28" "ss_category form_28 = ''Running''"
  "ss_distance form_28 = Some 5" "ss_manual_pace form_28 = Some False"
  "ss_duration form_28 = 28" "ss_date form_28 = ymd 2024 1 8"
  "ss_rpe form_28 = 6" "ss_notes form_28 = ''river loop''"
  "sub_type_structure form_28 = Inr (''Easy Run'', '''')"
  by (simp_all add: form_28_def form_run_def sub_type_structure_def)

lemma form_run_simps:
  "ss_confirm_save form_run" "ss_category form_run = ''Running''"
  "ss_distance form_run = Some 5" "ss_manual_pace form_run = Some False"
  "ss_duration form_run = 30" "ss_date form_run = ymd 2024 1 8"
  "ss_rpe form_run = 6" "ss_notes form_run = ''river loop''"
  "sub_type_structure form_run = Inr (''Easy Run'', '''')"
  by (simp_all add: form_run_def sub_type_structure_def)

lemma form_thirds_simps:
  "ss_confirm_save form_thirds" "ss_category form_thirds = ''Running''"
  "ss_distance form_thirds = Some 3" "ss_manual_pace form_thirds = Some False"
  "ss_duration form_thirds = 4" "ss_date form_thirds = ymd 2024 1 8"
  "ss_rpe form_thirds = 6" "ss_notes form_thirds = ''river loop''"
  "sub_type_structure form_thirds = Inr (''Easy Run'', '''')"
  by (simp_all add: form_thirds_def form_run_def sub_type_structure_def)

lemma form_tiny_distance_simps:
  "ss_confirm_save form_tiny_distance" "ss_category form_tiny_distance = ''Running''"
  "ss_distance form_tiny_distance = Some (2 powi (- 1030))"
  "ss_manual_pace form_tiny_distance = Some False"
  "ss_duration form_tiny_distance = 30"
  "sub_type_structure form_tiny_distance = Inr (''Easy Run'', '''')"
  by (simp_all add: form_tiny_distance_def form_run_def sub_type_structure_def)

lemma form_smallest_distance_simps:
  "ss_confirm_save form_smallest_distance"
  "ss_category form_smallest_distance = ''Running''"
  "ss_distance form_smallest_distance = Some (2 powi (- 1074))"
  "ss_manual_pace form_smallest_distance = Some False"
  "ss_duration form_smallest_distance = 1"
  "sub_type_structure form_smallest_distance = Inr (''Easy Run'', '''')"
  by (simp_all add: form_smallest_distance_def form_run_def sub_type_structure_def)

text \<open>
  C4, as amended. The arithmetic of the pace is that of doubles. For a confirmed
  running form with a distance above 0, a duration above 0 and no manual pace: when the
  duration and the quotient of duration and distance are finite doubles, the call saves
  a document whose pace is the string of the specification with the quotient, the
  difference and the product each rounded to the nearest double; otherwise the call
  raises \<^verbatim>\<open>OverflowError\<close> and saves nothing.
\<close>

theorem running_pace_matches_spec_in_doubles:
  assumes "ss_confirm_save s"
    and "ss_category s = ''Running''"
    and "sub_type_structure s = Inr (st, stru)"
    and "ss_distance s = Some d"
    and "ss_manual_pace s = Some False"
    and "0 < d"
    and "0 < ss_duration s"
  shows "save_workout_callback s db =
     (if pace_is_finite (ss_duration s) d
      then Inr (reset_inputs st s,
                add_workout (ss_date s) ''Running'' st (ss_duration s) d
                  (spec_derive_pace_double (ss_duration s) d) stru (ss_rpe s) (ss_notes s) db)
      else Inl OverflowError)"
proof (cases "pace_is_finite (ss_duration s) d")
  case True
  have "0 \<le> ss_duration s"
    using assms(7) by simp
  with assms(6) have "running_pace (ss_duration s) d =
      Inr (spec_derive_pace_double (ss_duration s) d)"
    using True by (rule running_pace_spec_double)
  with assms(1-6) show ?thesis
    using True by (simp add: running_callback)
next
  case False
  have "0 \<le> ss_duration s"
    using assms(7) by simp
  with assms(6) have "running_pace (ss_duration s) d = Inl OverflowError"
    using False by (rule running_pace_overflow)
  with assms(1-6) show ?thesis
    using False by (simp add: running_callback_raises)
qed

text \<open>
  Duration 28 and distance 5 give \<^verbatim>\<open>5:35 /km\<close>; duration 30 and distance 5 give
  \<^verbatim>\<open>6:00 /km\<close>.
\<close>

theorem running_pace_matches_spec_in_doubles_witness:
  "save_workout_callback form_28 [] =
     Inr (reset_inputs ''Easy Run'' form_28,
          [\<lparr>date = ymd 2024 1 8, category = ''Running'', sub_type = ''Easy Run'',
            duration_min = 28, distance_km = 5, pace = ''5:35 /km'', structure = '''',
            rpe = 6, notes = ''river loop''\<rparr>]) \<and>
   save_workout_callback form_run [] =
     Inr (reset_inputs ''Easy Run'' form_run,
          [\<lparr>date = ymd 2024 1 8, category = ''Running'', sub_type = ''Easy Run'',
            duration_min = 30, distance_km = 5, pace = ''6:00 /km'', structure = '''',
            rpe = 6, notes = ''river loop''\<rparr>])"
proof -
  have a: "save_workout_callback form_28 [] =
     Inr (reset_inputs ''Easy Run'' form_28,
          [\<lparr>date = ymd 2024 1 8, category = ''Running'', sub_type = ''Easy Run'',
            duration_min = 28, distance_km = 5, pace = ''5:35 /km'', structure = '''',
            rpe = 6, notes = ''river loop''\<rparr>])"
    using running_pace_matches_spec_in_doubles [of form_28 "''Easy Run''" "''''" 5 "[]"]
      pace_28_5
    by (simp add: form_28_simps add_workout_def)
  have b: "save_workout_callback form_run [] =
     Inr (reset_inputs ''Easy Run'' form_run,
          [\<lparr>date = ymd 2024 1 8, category = ''Running'', sub_type = ''Easy Run'',
            duration_min = 30, distance_km = 5, pace = ''6:00 /km'', structure = '''',
            rpe = 6, notes = ''river loop''\<rparr>])"
    using running_pace_matches_spec_in_doubles [of form_run "''Easy Run''" "''''" 5 "[]"]
      pace_whole_minutes [of 6 30]
    by (simp add: form_run_simps add_workout_def digit_char_def)
  from a b show ?thesis ..
qed

text \<open>
  The claim as stated fails: for the distance \<open>2 powi (- 1030)\<close> and the duration 30
  the quotient of line 107 is infinite, and the call raises \<^verbatim>\<open>OverflowError\<close> on line
  108 instead of saving a pace.
\<close>

theorem tiny_distance_run_raises_overflow:
  "ss_confirm_save form_tiny_distance \<and>
   ss_category form_tiny_distance = ''Running'' \<and>
   ss_distance form_tiny_distance = Some (2 powi (- 1030)) \<and>
   0 < (2::rat) powi (- 1030) \<and>
   ss_duration form_tiny_distance = 30 \<and>
   ss_manual_pace form_tiny_distance = Some False \<and>
   save_workout_callback form_tiny_distance [] = Inl OverflowError"
proof -
  have "running_pace 30 (2 powi (- 1030)) = Inl OverflowError"
    using pace_tiny_distance by (intro running_pace_overflow) simp_all
  then have q: "running_pace (ss_duration form_tiny_distance) (2 powi (- 1030)) =
      Inl OverflowError"
    by (simp only: form_tiny_distance_simps)
  have "save_workout_callback form_tiny_distance [] = Inl OverflowError"
    using running_callback_raises [OF form_tiny_distance_simps(1,2,6,3,4) _ q] by simp
  then show ?thesis
    using form_tiny_distance_simps(1-5) by simp
qed

text \<open>
  C10, as amended. For a confirmed running form with a distance above 0, a duration of
  at least 0 and no manual pace: when the duration and the quotient of duration and
  distance are finite doubles, the seconds of the computed pace lie between 0 and 59
  and the saved pace is well formed: digits, a colon, two digits and the unit;
  otherwise the call raises \<^verbatim>\<open>OverflowError\<close> and no pace is saved.
\<close>

theorem running_pace_seconds_below_60:
  assumes "ss_confirm_save s"
    and "ss_category s = ''Running''"
    and "sub_type_structure s = Inr (st, stru)"
    and "ss_distance s = Some d"
    and "ss_manual_pace s = Some False"
    and "0 < d"
    and "0 \<le> ss_duration s"
  shows "if pace_is_finite (ss_duration s) d
         then
           let pace_decimal = round_nearest (round_nearest (of_int (ss_duration s)) / d);
               minutes = \<lfloor>pace_decimal\<rfloor>;
               seconds =
                 \<lfloor>round_nearest (round_nearest (pace_decimal - of_int minutes) * 60)\<rfloor>;
               pace_str = str_int minutes @ '':'' @ fmt_02d seconds @ '' /km''
           in 0 \<le> seconds \<and> seconds \<le> 59 \<and> well_formed_pace pace_str \<and>
              save_workout_callback s db =
                Inr (reset_inputs st s,
                     add_workout (ss_date s) ''Running'' st (ss_duration s) d pace_str stru
                       (ss_rpe s) (ss_notes s) db)
         else save_workout_callback s db = Inl OverflowError"
proof (cases "pace_is_finite (ss_duration s) d")
  case True
  define x where "x = round_nearest (round_nearest (of_int (ss_duration s)) / d)"
  define sec where "sec = \<lfloor>round_nearest (round_nearest (x - of_int \<lfloor>x\<rfloor>) * 60)\<rfloor>"
  let ?pace = "str_int \<lfloor>x\<rfloor> @ '':'' @ fmt_02d sec @ '' /km''"
  have s0: "0 \<le> sec" and s59: "sec \<le> 59" and m0: "0 \<le> \<lfloor>x\<rfloor>"
    unfolding sec_def x_def using assms(6,7) True by (rule seconds_range)+
  have wf: "well_formed_pace ?pace"
    using m0 s0 s59 by (rule well_formed_paceI)
  have "running_pace (ss_duration s) d = Inr ?pace"
    using assms(6,7) True by (simp add: running_pace_eq x_def sec_def)
  with assms(1-6) have "save_workout_callback s db =
      Inr (reset_inputs st s,
           add_workout (ss_date s) ''Running'' st (ss_duration s) d ?pace stru (ss_rpe s)
             (ss_notes s) db)"
    by (rule running_callback)
  then show ?thesis
    using True s0 s59 wf by (simp add: Let_def x_def sec_def)
next
  case False
  with assms(6,7) have "running_pace (ss_duration s) d = Inl OverflowError"
    by (rule running_pace_overflow)
  with assms(1-6) have "save_workout_callback s db = Inl OverflowError"
    by (rule running_callback_raises)
  then show ?thesis
    using False by simp
qed

text \<open>Duration 4 and distance 3 give 1 minute and 19 seconds.\<close>

theorem running_pace_seconds_below_60_witness:
  "pace_is_finite 4 3 \<and> well_formed_pace ''1:19 /km'' \<and>
   save_workout_callback form_thirds [] =
     Inr (reset_inputs ''Easy Run'' form_thirds,
          [\<lparr>date = ymd 2024 1 8, category = ''Running'', sub_type = ''Easy Run'',
            duration_min = 4, distance_km = 3, pace = ''1:19 /km'', structure = '''',
            rpe = 6, notes = ''river loop''\<rparr>])"
proof -
  have "0 < (3::rat)" and "0 \<le> ss_duration form_thirds"
    by (simp_all add: form_thirds_simps)
  note running_pace_seconds_below_60 [of form_thirds "''Easy Run''" "''''" 3 "[]",
      OF form_thirds_simps(1,2,9,3,4) this,
      unfolded form_thirds_simps pace_4_3(1) if_True Let_def steps_4_3 strings_1_19]
  then show ?thesis
    using pace_4_3(1) by (simp add: add_workout_def)
qed

text \<open>
  The claim as stated fails: for the smallest positive distance, \<open>2 powi (- 1074)\<close>, and
  the duration 1 the quotient is infinite; the call raises \<^verbatim>\<open>OverflowError\<close>, and there
  are no seconds and no pace string.
\<close>

theorem running_pace_overflow_has_no_seconds:
  "ss_category form_smallest_distance = ''Running'' \<and>
   ss_distance form_smallest_distance = Some (2 powi (- 1074)) \<and>
   0 < (2::rat) powi (- 1074) \<and>
   ss_duration form_smallest_distance = 1 \<and>
   ss_manual_pace form_smallest_distance = Some False \<and>
   save_workout_callback form_smallest_distance [] = Inl OverflowError"
proof -
  have "running_pace 1 (2 powi (- 1074)) = Inl OverflowError"
    using pace_smallest_distance by (intro running_pace_overflow) simp_all
  then have q: "running_pace (ss_duration form_smallest_distance) (2 powi (- 1074)) =
      Inl OverflowError"
    by (simp only: form_smallest_distance_simps)
  have "save_workout_callback form_smallest_distance [] = Inl OverflowError"
    using running_callback_raises [OF form_smallest_distance_simps(1,2,6,3,4) _ q]
    by simp
  then show ?thesis
    using form_smallest_distance_simps(2-5) by simp
qed

subsection \<open>Pace without a value\<close>




subsection \<open>The manual pace\<close>

text \<open>
  C9. For a confirmed running form with the manual pace set, the saved pace is the text
  of the pace input as it is, for every distance (also 0) and every text (also the
  empty one).
\<close>

theorem manual_pace_verbatim:
  assumes "ss_confirm_save s"
    and "ss_category s = ''Running''"
    and "sub_type_structure s = Inr (st, stru)"
    and "ss_distance s = Some d"
    and "ss_manual_pace s = Some True"
    and "ss_pace_input s = Some p"
  shows "save_workout_callback s db =
     Inr (reset_inputs st s,
          add_workout (ss_date s) ''Running'' st (ss_duration s) d p stru (ss_rpe s)
            (ss_notes s) db)"
proof -
  have "distance_pace s = Inr (d, p)"
    using assms by (simp add: distance_pace_def)
  then show ?thesis
    using assms save_workout_callback_saves by simp
qed

text \<open>Distance 0 and an empty pace text: the saved pace is empty, not \<^verbatim>\<open>N/A\<close>.\<close>

theorem manual_pace_verbatim_witness:
  "save_workout_callback form_manual [] =
     Inr (reset_inputs ''Easy Run'' form_manual,
          [\<lparr>date = ymd 2024 1 8, category = ''Running'', sub_type = ''Easy Run'',
            duration_min = 30, distance_km = 0, pace = '''', structure = '''',
            rpe = 6, notes = ''river loop''\<rparr>])"
proof -
  have st: "sub_type_structure form_manual = Inr (''Easy Run'', '''')"
    unfolding form_manual_def by (simp add: sub_type_structure_def form_run_def)
  have f: "ss_confirm_save form_manual" "ss_distance form_manual = Some 0"
    "ss_category form_manual = ''Running''" "ss_manual_pace form_manual = Some True"
    "ss_pace_input form_manual = Some ''''"
    "ss_duration form_manual = 30" "ss_date form_manual = ymd 2024 1 8"
    "ss_rpe form_manual = 6" "ss_notes form_manual = ''river loop''"
    by (simp_all add: form_manual_def form_run_def)
  show ?thesis
    using manual_pace_verbatim [of form_manual "''Easy Run''" "''''" 0 "''''" "[]"] st f
    by (simp add: add_workout_def)
qed

subsection \<open>The structure text\<close>

text \<open>
  C6. Whenever a confirmed call saves a document, the document's structure is empty
  unless its sub-type is an interval type for its category; the text in the structure
  input does not matter.
\<close>

theorem non_interval_structure_empty:
  assumes "ss_confirm_save s"
    and "save_workout_callback s db = Inr (s', db')"
  shows "\<exists>r. db' = db @ [r] \<and>
           (\<not> is_interval (category r) (sub_type r) \<longrightarrow> structure r = '''')"
proof -
  obtain st stru d p where st: "sub_type_structure s = Inr (st, stru)"
    and db': "db' = add_workout (ss_date s) (ss_category s) st (ss_duration s) d p stru
                      (ss_rpe s) (ss_notes s) db"
    using save_workout_callback_InrD [OF assms] by blast
  let ?r = "\<lparr>date = ss_date s, category = ss_category s, sub_type = st,
      duration_min = ss_duration s, distance_km = d, pace = p, structure = stru,
      rpe = ss_rpe s, notes = ss_notes s\<rparr>"
  have "db' = db @ [?r]"
    using db' by (simp add: add_workout_def)
  moreover have "\<not> is_interval (category ?r) (sub_type ?r) \<longrightarrow> structure ?r = ''''"
    using sub_type_structure_not_interval [OF st] by simp
  ultimately show ?thesis by blast
qed

text \<open>An easy run with \<^verbatim>\<open>4 x 1km\<close> left in the structure input.\<close>

theorem non_interval_structure_empty_witness:
  "ss_structure_input form_run = Some ''4 x 1km'' \<and>
   (\<exists>r. save_workout_callback form_run [] = Inr (reset_inputs ''Easy Run'' form_run, [r]) \<and>
        sub_type r = ''Easy Run'' \<and> structure r = '''')"
proof -
  let ?r = "\<lparr>date = ymd 2024 1 8, category = ''Running'', sub_type = ''Easy Run'',
      duration_min = 30, distance_km = 5, pace = ''6:00 /km'', structure = '''',
      rpe = 6, notes = ''river loop''\<rparr>"
  note p = running_pace_30_5
  have f: "ss_confirm_save form_run" "ss_structure_input form_run = Some ''4 x 1km''"
    by (simp_all add: form_run_def)
  have run: "save_workout_callback form_run [] = Inr (reset_inputs ''Easy Run'' form_run, [?r])"
    by (simp add: save_workout_callback_def sub_type_structure_def distance_pace_def p
        add_workout_def form_run_def)
  from non_interval_structure_empty [OF f(1) run]
  obtain r where r: "[?r] = [] @ [r]"
    and e: "\<not> is_interval (category r) (sub_type r) \<longrightarrow> structure r = ''''"
    by blast
  from r have "r = ?r" by simp
  with e run f(2) show ?thesis
    by (simp add: is_interval_def)
qed

section \<open>Properties of the Dashboard page\<close>

subsection \<open>Weeks\<close>

lemma ns_per_day_pos: "0 < ns_per_day"
  by (simp add: ns_per_day_def)

text \<open>The label of a bin is the first Monday on or after the date.\<close>

lemma weekday_week_label: "weekday (week_label d) = 0"
  unfolding weekday_def week_label_def by presburger

lemma week_label_mono: "d \<le> e \<Longrightarrow> week_label d \<le> week_label e"
  unfolding weekday_def week_label_def by presburger

lemma week_label_le_monday: "weekday b = 0 \<Longrightarrow> d \<le> b \<Longrightarrow> week_label d \<le> b"
  unfolding weekday_def week_label_def by presburger

lemma monday_le_week_label: "weekday b = 0 \<Longrightarrow> b - 7 < d \<Longrightarrow> b \<le> week_label d"
  unfolding weekday_def week_label_def by presburger

lemma in_bin_iff_week_label:
  "weekday b = 0 \<Longrightarrow> in_bin b r \<longleftrightarrow> week_label (date r) = b"
  unfolding weekday_def week_label_def in_bin_def by presburger

lemma mondays_step:
  assumes "weekday a = 0" and "weekday b = 0" and "a \<le> b"
  shows "b = a + 7 * int (nat ((b - a) div 7))"
proof -
  have "(b - a) mod 7 = 0"
    using assms unfolding weekday_def by presburger
  then have "b - a = 7 * ((b - a) div 7)"
    by presburger
  moreover have "0 \<le> (b - a) div 7"
    using assms(3) by simp
  ultimately show ?thesis by simp
qed

text \<open>
  Every Monday between the first and the last label has a row in the resampled frame,
  with the sum of its bin.
\<close>

lemma resample_has_bucket:
  assumes b: "weekday b = 0"
    and r1: "r1 \<in> set rows" "date r1 \<le> b"
    and r2: "r2 \<in> set rows" "b - 7 < date r2"
  shows "(b, sum_list (map duration_min (filter (in_bin b) rows)))
           \<in> set (resample_W_MON_sum rows)"
proof -
  let ?D = "set (map date rows)"
  let ?first = "week_label (Min ?D)" and ?last = "week_label (Max ?D)"
  let ?n = "nat ((?last - ?first) div 7) + 1"
  let ?row = "\<lambda>b. (b, sum_list (map duration_min (filter (in_bin b) rows)))"
  have ne: "rows \<noteq> []" using r1 by auto
  have "Min ?D \<le> date r1"
    using r1 by (intro Min_le) auto
  then have "Min ?D \<le> b"
    using r1(2) by simp
  then have f: "?first \<le> b"
    using b by (intro week_label_le_monday)
  have "date r2 \<le> Max ?D"
    using r2 by (intro Max_ge) auto
  then have "week_label (date r2) \<le> ?last"
    by (rule week_label_mono)
  then have l: "b \<le> ?last"
    using monday_le_week_label [OF b r2(2)] by simp
  define k where "k = nat ((b - ?first) div 7)"
  have bk: "b = ?first + 7 * int k"
    unfolding k_def using weekday_week_label b f by (rule mondays_step)
  have "(b - ?first) div 7 \<le> (?last - ?first) div 7"
    using l by (simp add: zdiv_mono1)
  then have "k < ?n"
    unfolding k_def by simp
  then have "k \<in> set [0 ..< ?n]"
    by (simp only: set_upt atLeastLessThan_iff) simp
  then have "?row (?first + 7 * int k)
      \<in> set (map ?row (map (\<lambda>k. ?first + 7 * int k) [0 ..< ?n]))"
    by (simp only: set_map) (intro imageI)
  then show ?thesis
    using ne bk
    by (simp add: resample_W_MON_sum_def Let_def del: upt_Suc set_map map_map)
qed

subsection \<open>Timestamps\<close>

lemma day_of_sub_days: "day_of (t - timedelta_days k) = day_of t - k"
proof -
  have "(t + (- k) * ns_per_day) div ns_per_day = - k + t div ns_per_day"
    using ns_per_day_pos by (intro div_mult_self1) simp
  then show ?thesis
    by (simp add: day_of_def timedelta_days_def)
qed

text \<open>Comparing an instant with a midnight only needs its day and whether it is a midnight.\<close>

lemma le_midnight_iff:
  "t \<le> to_datetime c \<longleftrightarrow>
     (if t mod ns_per_day = 0 then day_of t \<le> c else day_of t < c)"
proof -
  let ?N = ns_per_day
  define q where "q = t div ?N"
  define r where "r = t mod ?N"
  have N: "0 < ?N" by (rule ns_per_day_pos)
  have t: "t = q * ?N + r"
    unfolding q_def r_def by simp
  have r: "0 \<le> r" "r < ?N"
    unfolding r_def using N by simp_all
  have le: "q * ?N \<le> c * ?N \<longleftrightarrow> q \<le> c"
    using N by simp
  have "t \<le> c * ?N \<longleftrightarrow> (if r = 0 then q \<le> c else q < c)"
  proof (cases "r = 0")
    case True
    then show ?thesis using t le by simp
  next
    case False
    then have r0: "0 < r" using r by simp
    have "t \<le> c * ?N \<longleftrightarrow> q < c"
    proof
      assume a: "t \<le> c * ?N"
      show "q < c"
      proof (rule ccontr)
        assume "\<not> q < c"
        then have "c \<le> q" by simp
        then have "c * ?N \<le> q * ?N"
          using N by (intro mult_right_mono) simp_all
        then show False
          using a t r0 by linarith
      qed
    next
      assume "q < c"
      then have "q + 1 \<le> c" by simp
      then have "(q + 1) * ?N \<le> c * ?N"
        using N by (intro mult_right_mono) simp_all
      moreover have "(q + 1) * ?N = q * ?N + ?N"
        by (simp add: algebra_simps)
      ultimately show "t \<le> c * ?N"
        using t r by linarith
    qed
    then show ?thesis using False by simp
  qed
  then show ?thesis
    by (simp add: to_datetime_def day_of_def q_def r_def)
qed

text \<open>The rows of the current week, and the rows of the chart, in days.\<close>

lemma this_week_df_days:
  "this_week_df now1 now2 df =
     filter (\<lambda>r. day_of now1 - weekday (day_of now2) \<le> date r) df"
proof -
  have "normalize (current_week_start now1 now2) \<le> to_datetime d \<longleftrightarrow>
        day_of now1 - weekday (day_of now2) \<le> d" for d
    using ns_per_day_pos
    by (simp add: normalize_def current_week_start_def day_of_sub_days dayofweek_def
        to_datetime_def)
  then show ?thesis
    by (simp add: this_week_df_def)
qed

lemma df_viz_days:
  "df_viz now3 f df =
     filter (\<lambda>(b, v). if now3 mod ns_per_day = 0 then day_of now3 - 84 \<le> b
                       else day_of now3 - 84 < b)
       (df_weekly f df)"
proof -
  have w: "timedelta_weeks 12 = timedelta_days 84"
    by (simp add: timedelta_weeks_def timedelta_days_def)
  have m: "(now3 - timedelta_days 84) mod ns_per_day = now3 mod ns_per_day"
    by (simp add: timedelta_days_def mod_diff_eq [symmetric])
  have "now3 - timedelta_weeks 12 \<le> to_datetime b \<longleftrightarrow>
        (if now3 mod ns_per_day = 0 then day_of now3 - 84 \<le> b else day_of now3 - 84 < b)"
    for b
    unfolding w le_midnight_iff m day_of_sub_days by simp
  then show ?thesis
    by (simp add: df_viz_def Let_def)
qed

subsection \<open>The key of a week\<close>

text \<open>
  C2. A run on Tuesday 9 January 2024, shown on 20 January: the Monday at or before the
  run is 8 January, but the only row of the chart is keyed 15 January, the Monday after
  the run, with its 30 minutes. The chart's axis (line 249) calls the key the start of
  the week.
\<close>

theorem tuesday_run_keyed_by_following_monday:
  "weekday (ymd 2024 1 9) = 1 \<and>
   ymd 2024 1 9 - weekday (ymd 2024 1 9) = ymd 2024 1 8 \<and>
   df_viz (at_hour (ymd 2024 1 20) 12) ''All Activities'' one_tuesday =
     [(ymd 2024 1 15, 30)]"
  by code_simp

subsection \<open>The row of a record\<close>

text \<open>
  Every record is counted in the row keyed by the first Monday on or after its date:
  the key is a Monday, at most six days after the record.
\<close>

lemma week_label_ge: "d \<le> week_label d"
  unfolding weekday_def week_label_def by presburger

lemma week_label_lt: "week_label d < d + 7"
  unfolding weekday_def week_label_def by presburger

theorem record_keyed_by_monday_on_or_after:
  assumes "r \<in> set df"
  shows "weekday (week_label (date r)) = 0 \<and>
         date r \<le> week_label (date r) \<and> week_label (date r) < date r + 7 \<and>
         in_bin (week_label (date r)) r \<and>
         (week_label (date r),
          sum_list (map duration_min (filter (in_bin (week_label (date r))) df)))
           \<in> set (resample_W_MON_sum df)"
proof -
  let ?b = "week_label (date r)"
  have b: "weekday ?b = 0" by (rule weekday_week_label)
  have ge: "date r \<le> ?b" by (rule week_label_ge)
  have "?b < date r + 7" by (rule week_label_lt)
  then have lt: "?b - 7 < date r" by simp
  have "in_bin ?b r"
    using ge lt by (simp add: in_bin_def)
  moreover have "(?b, sum_list (map duration_min (filter (in_bin ?b) df)))
      \<in> set (resample_W_MON_sum df)"
    using b assms ge assms lt by (rule resample_has_bucket)
  ultimately show ?thesis
    using b ge lt by simp
qed

theorem record_keyed_by_monday_on_or_after_witness:
  "week_label (date (easy_run (ymd 2024 1 9) 30)) = ymd 2024 1 15 \<and>
   (ymd 2024 1 15, 30) \<in> set (resample_W_MON_sum one_tuesday)"
proof -
  have m: "easy_run (ymd 2024 1 9) 30 \<in> set one_tuesday"
    by (simp add: one_tuesday_def)
  have l: "week_label (date (easy_run (ymd 2024 1 9) 30)) = ymd 2024 1 15"
    by code_simp
  have s: "sum_list (map duration_min (filter (in_bin (ymd 2024 1 15)) one_tuesday)) = 30"
    by code_simp
  note record_keyed_by_monday_on_or_after [OF m, unfolded l s]
  then have "(ymd 2024 1 15, 30) \<in> set (resample_W_MON_sum one_tuesday)"
    by blast
  with l show ?thesis
    by blast
qed

subsection \<open>Weeks without records\<close>

text \<open>
  C3, as amended. The weekly series is dense: every week from the one of the earliest
  selected record to the one of the latest has a row (when its key is within the last
  twelve weeks), holding the sum of the durations of its records; a week without
  records has the row with sum 0.
\<close>

theorem weekly_series_has_every_week:
  assumes "rows = df_filtered activity_filter df"
    and "weekday b = 0"
    and "r1 \<in> set rows" and "date r1 \<le> b"
    and "r2 \<in> set rows" and "b - 7 < date r2"
    and "now3 - timedelta_weeks 12 \<le> to_datetime b"
  shows "(b, sum_list (map duration_min (filter (in_bin b) rows)))
           \<in> set (df_viz now3 activity_filter df) \<and>
         (filter (in_bin b) rows = [] \<longrightarrow> (b, 0) \<in> set (df_viz now3 activity_filter df))"
proof -
  have "(b, sum_list (map duration_min (filter (in_bin b) rows)))
          \<in> set (resample_W_MON_sum rows)"
    using assms(2-6) by (rule resample_has_bucket)
  then have "(b, sum_list (map duration_min (filter (in_bin b) rows)))
          \<in> set (df_viz now3 activity_filter df)"
    using assms(1,7) by (simp add: df_viz_def df_weekly_def Let_def)
  then show ?thesis by auto
qed

text \<open>Runs on 5 and 21 March 2024: the week ending Monday 18 March is empty.\<close>

theorem weekly_series_has_every_week_witness:
  "filter (in_bin (ymd 2024 3 18)) sparse_march = [] \<and>
   (ymd 2024 3 18, 0) \<in> set (df_viz (at_hour (ymd 2024 3 30) 12) ''All Activities'' sparse_march)"
proof -
  have h1: "sparse_march = df_filtered ''All Activities'' sparse_march"
    by (simp add: df_filtered_def)
  have h2: "weekday (ymd 2024 3 18) = 0"
    by code_simp
  have h3: "easy_run (ymd 2024 3 5) 20 \<in> set sparse_march"
    and h5: "easy_run (ymd 2024 3 21) 50 \<in> set sparse_march"
    by (simp_all add: sparse_march_def)
  have h4: "date (easy_run (ymd 2024 3 5) 20) \<le> ymd 2024 3 18"
    by code_simp
  have h6: "ymd 2024 3 18 - 7 < date (easy_run (ymd 2024 3 21) 50)"
    by code_simp
  have h7: "at_hour (ymd 2024 3 30) 12 - timedelta_weeks 12 \<le> to_datetime (ymd 2024 3 18)"
    by code_simp
  have e: "filter (in_bin (ymd 2024 3 18)) sparse_march = []"
    by code_simp
  show ?thesis
    using weekly_series_has_every_week [OF h1 h2 h3 h4 h5 h6 h7] e by simp
qed

text \<open>
  The claim as stated fails: for runs on Monday 8 and Monday 22 January 2024 the series
  has a row for 15 January, a week without any record, with sum 0.
\<close>

theorem empty_week_gets_zero_row:
  "filter (in_bin (ymd 2024 1 15)) two_mondays = [] \<and>
   df_viz (at_hour (ymd 2024 1 25) 12) ''All Activities'' two_mondays =
     [(ymd 2024 1 8, 30), (ymd 2024 1 15, 0), (ymd 2024 1 22, 40)]"
  by code_simp

subsection \<open>The clock\<close>

text \<open>The minutes of the current week on the page.\<close>

lemma this_week_duration_page:
  assumes "df \<noteq> []"
  shows "map_option this_week_duration (dashboard_page float_sum now1 now2 now3 f df) =
     Some (str_int (sum_list (map duration_min
       (filter (\<lambda>r. day_of now1 - weekday (day_of now2) \<le> date r) df))) @ '' min'')"
  using assms by (simp add: dashboard_page_def this_week_df_days)

lemma day_of_at_ns:
  assumes "0 \<le> n" and "n < ns_per_day"
  shows "day_of (at_ns d n) = d"
proof -
  have "(n + d * ns_per_day) div ns_per_day = d + n div ns_per_day"
    using ns_per_day_pos by (intro div_mult_self1) simp
  then show ?thesis
    using assms by (simp add: day_of_def at_ns_def to_datetime_def add.commute)
qed

lemma clock_days:
  "day_of sunday_late = ymd 2024 1 14" "day_of sunday_later = ymd 2024 1 14"
  "day_of monday_early = ymd 2024 1 15" "day_of monday_after = ymd 2024 1 15"
  unfolding sunday_late_def sunday_later_def monday_early_def monday_after_def
  by (rule day_of_at_ns; simp add: ns_per_day_def)+

text \<open>
  C7, as amended. The page reads the clock three times in a run, and what it shows is
  a function of the records, the selected activity and these three readings. Of the
  readings only the calendar days matter, and for the third whether it is a midnight:
  two runs over the same records and activity whose readings agree on these show the
  same page.
\<close>

theorem dashboard_deterministic_in_clock_days:
  assumes "day_of now1 = day_of now1'"
    and "day_of now2 = day_of now2'"
    and "day_of now3 = day_of now3'"
    and "(now3 mod ns_per_day = 0) = (now3' mod ns_per_day = 0)"
  shows "dashboard_page float_sum now1 now2 now3 activity_filter df =
         dashboard_page float_sum now1' now2' now3' activity_filter df"
proof -
  have week: "this_week_df now1 now2 df = this_week_df now1' now2' df"
    by (simp add: this_week_df_days assms(1,2))
  have viz: "df_viz now3 activity_filter df = df_viz now3' activity_filter df"
    unfolding df_viz_days assms(3) assms(4) by (rule refl)
  show ?thesis
    by (simp add: dashboard_page_def week viz)
qed

text \<open>The same records at 09:00 and at 18:00 of 25 January 2024.\<close>

theorem dashboard_deterministic_in_clock_days_witness:
  "dashboard_page seq_sum (at_hour (ymd 2024 1 25) 9) (at_hour (ymd 2024 1 25) 9)
     (at_hour (ymd 2024 1 25) 9) ''Running'' two_mondays =
   dashboard_page seq_sum (at_hour (ymd 2024 1 25) 18) (at_hour (ymd 2024 1 25) 18)
     (at_hour (ymd 2024 1 25) 18) ''Running'' two_mondays \<and>
   map_option this_week_duration
     (dashboard_page seq_sum (at_hour (ymd 2024 1 25) 18) (at_hour (ymd 2024 1 25) 18)
        (at_hour (ymd 2024 1 25) 18) ''Running'' two_mondays) = Some ''40 min''"
proof -
  have d: "day_of (at_hour (ymd 2024 1 25) 9) = day_of (at_hour (ymd 2024 1 25) 18)"
    by code_simp
  have m: "(at_hour (ymd 2024 1 25) 9 mod ns_per_day = 0) =
           (at_hour (ymd 2024 1 25) 18 mod ns_per_day = 0)"
    by code_simp
  have ne: "two_mondays \<noteq> []"
    by (simp add: two_mondays_def)
  have s: "str_int (sum_list (map duration_min
      (filter (\<lambda>r. day_of (at_hour (ymd 2024 1 25) 18) -
                    weekday (day_of (at_hour (ymd 2024 1 25) 18)) \<le> date r)
         two_mondays))) @ '' min'' = ''40 min''"
    by code_simp
  show ?thesis
    using dashboard_deterministic_in_clock_days [OF d d d m, of seq_sum "''Running''"
        two_mondays]
      this_week_duration_page [OF ne, of seq_sum "at_hour (ymd 2024 1 25) 18"
        "at_hour (ymd 2024 1 25) 18" "at_hour (ymd 2024 1 25) 18" "''Running''"]
    by (simp only: s)
qed

text \<open>
  The claim as stated fails. Two runs over the same record, a run on Tuesday 9 January
  2024, take their first reading at the same instant, two microseconds before the
  midnight that ends Sunday 14 January, and their third reading at the same instant
  after that midnight. The second reading is still on the Sunday in one run and already
  on the Monday in the other: the first run shows 30 minutes for the current week, the
  second shows none.
\<close>

theorem midnight_between_clock_readings:
  "sunday_late \<le> sunday_later \<and> sunday_later \<le> monday_after \<and>
   sunday_late \<le> monday_early \<and> monday_early \<le> monday_after \<and>
   map_option this_week_duration
     (dashboard_page seq_sum sunday_late sunday_later monday_after ''All Activities''
        one_tuesday) = Some ''30 min'' \<and>
   map_option this_week_duration
     (dashboard_page seq_sum sunday_late monday_early monday_after ''All Activities''
        one_tuesday) = Some ''0 min''"
proof -
  have o: "sunday_late \<le> sunday_later" "sunday_later \<le> monday_after"
    "sunday_late \<le> monday_early" "monday_early \<le> monday_after"
    by code_simp+
  have ne: "one_tuesday \<noteq> []"
    by (simp add: one_tuesday_def)
  have a: "str_int (sum_list (map duration_min
      (filter (\<lambda>r. ymd 2024 1 14 - weekday (ymd 2024 1 14) \<le> date r) one_tuesday))) @
      '' min'' = ''30 min''"
    by code_simp
  have b: "str_int (sum_list (map duration_min
      (filter (\<lambda>r. ymd 2024 1 14 - weekday (ymd 2024 1 15) \<le> date r) one_tuesday))) @
      '' min'' = ''0 min''"
    by code_simp
  show ?thesis
    using o a b by (simp only: this_week_duration_page [OF ne] clock_days)
qed

end
